theory Spec2Isabelle
  imports Complex_Main "HOL-Library.Sublist"
begin

section \<open>JavaScript values and strings\<close>

text \<open>
  A JavaScript string is a sequence of UTF-16 code units; \<open>length\<close>, the regular
  expressions without the \<open>u\<close> flag and \<open>includes\<close> all work on code units. A code
  unit is a natural number here. Numbers are IEEE doubles in JavaScript; token counts are
  modelled as natural numbers and the arithmetic on them (division by the calibration
  constant, the factors 1.3 and 0.5, the prices) as exact rational arithmetic. A number
  can also be NaN, which every arithmetic operation hands on and every comparison
  answers with false.
\<close>

type_synonym jsstring = "nat list"

datatype 'a jsnum = Num 'a | NaN

fun js_add :: "'a::plus jsnum \<Rightarrow> 'a jsnum \<Rightarrow> 'a jsnum" where
  "js_add (Num a) (Num b) = Num (a + b)"
| "js_add x y = NaN"

text \<open>\<open>a >= b\<close> read from right to left: \<open>js_le b a\<close>.\<close>

fun js_le :: "'a::ord jsnum \<Rightarrow> 'a jsnum \<Rightarrow> bool" where
  "js_le (Num a) (Num b) = (a \<le> b)"
| "js_le x y = False"

fun Math_max :: "nat jsnum \<Rightarrow> nat jsnum \<Rightarrow> nat jsnum" where
  "Math_max (Num a) (Num b) = Num (max a b)"
| "Math_max x y = NaN"

definition str :: "string \<Rightarrow> jsstring" where
  "str s = map of_char s"

text \<open>
  The values a caller can pass where the code expects text, a message or a list of
  messages. An object is the list of its own properties.
\<close>

datatype jsval =
    JUndefined
  | JNull
  | JBool bool
  | JNum int
  | JStr jsstring
  | JArr "jsval list"
  | JObj "(jsstring \<times> jsval) list"

text \<open>Truthiness, as \<open>if (v)\<close> and \<open>!v\<close> test it.\<close>

fun truthy :: "jsval \<Rightarrow> bool" where
  "truthy JUndefined = False"
| "truthy JNull = False"
| "truthy (JBool b) = b"
| "truthy (JNum n) = (n \<noteq> 0)"
| "truthy (JStr s) = (s \<noteq> [])"
| "truthy (JArr xs) = True"
| "truthy (JObj ps) = True"

text \<open>\<open>typeof v === 'object'\<close>: true of \<open>null\<close>, arrays and objects.\<close>

fun typeof_object :: "jsval \<Rightarrow> bool" where
  "typeof_object JNull = True"
| "typeof_object (JArr xs) = True"
| "typeof_object (JObj ps) = True"
| "typeof_object v = False"

text \<open>
  Reading the property \<open>k\<close> of a value, for the keys the tokenizer reads (\<open>role\<close>,
  \<open>content\<close>, \<open>name\<close>): an object gives its own property or \<open>undefined\<close>, an array has
  none of the three.
\<close>

fun getProp :: "jsval \<Rightarrow> jsstring \<Rightarrow> jsval" where
  "getProp (JObj ps) k = (case map_of ps k of Some v \<Rightarrow> v | None \<Rightarrow> JUndefined)"
| "getProp v k = JUndefined"

subsection \<open>Character classes of the regular expressions\<close>

text \<open>
  \<open>\s\<close> and \<open>String.prototype.trim\<close> share one set of code units: the white space
  and line terminator characters of ECMAScript.
\<close>

definition isSpace :: "nat \<Rightarrow> bool" where
  "isSpace c =
     (c \<in> set [9, 10, 11, 12, 13, 32, 160, 5760, 8232, 8233, 8239, 8287, 12288, 65279]
      \<or> (8192 \<le> c \<and> c \<le> 8202))"

text \<open>\<open>\w\<close> is \<open>[A-Za-z0-9_]\<close>.\<close>

definition isWord :: "nat \<Rightarrow> bool" where
  "isWord c = ((48 \<le> c \<and> c \<le> 57) \<or> (65 \<le> c \<and> c \<le> 90) \<or> c = 95 \<or> (97 \<le> c \<and> c \<le> 122))"

subsection \<open>String operations of \<open>encode\<close>\<close>

definition trim :: "jsstring \<Rightarrow> jsstring" where
  "trim s = rev (dropWhile isSpace (rev (dropWhile isSpace s)))"

text \<open>\<open>s.replace(/\s+/g, ' ')\<close>: every maximal run of white space becomes one space.\<close>

function replace_ws :: "jsstring \<Rightarrow> jsstring" where
  "replace_ws [] = []"
| "replace_ws (c # cs) =
     (if isSpace c then 32 # replace_ws (dropWhile isSpace cs) else c # replace_ws cs)"
  by pat_completeness auto
termination
  by (relation "measure length") (auto simp: length_dropWhile_le less_Suc_eq_le)

text \<open>
  \<open>s.split(/\s+/)\<close>: the pieces between the maximal runs of white space, the empty
  pieces at either end included (\<open>"".split(/\s+/)\<close> is \<open>[""]\<close>).
\<close>

function split_ws :: "jsstring \<Rightarrow> jsstring list" where
  "split_ws s =
     (let w = takeWhile (\<lambda>c. \<not> isSpace c) s; r = dropWhile (\<lambda>c. \<not> isSpace c) s
      in if r = [] then [w] else w # split_ws (dropWhile isSpace r))"
  by pat_completeness auto
termination
proof (relation "measure length", goal_cases)
  case 1
  show ?case by simp
next
  case (2 s w r)
  have r: "r = dropWhile (\<lambda>c. \<not> isSpace c) s" and ne: "r \<noteq> []"
    using 2 by simp_all
  have "isSpace (hd r)"
    using hd_dropWhile [of "\<lambda>c. \<not> isSpace c" s] r ne by simp
  then have "dropWhile isSpace r = dropWhile isSpace (tl r)"
    using ne by (cases r) simp_all
  then have "length (dropWhile isSpace r) \<le> length (tl r)"
    using length_dropWhile_le [of isSpace "tl r"] by simp
  moreover have "length (tl r) < length r"
    using ne by (cases r) simp_all
  moreover have "length r \<le> length s"
    unfolding r by (rule length_dropWhile_le)
  ultimately show ?case by simp
qed

declare split_ws.simps [simp del]

text \<open>\<open>s.match(/[^\w\s]/g) || []\<close>: the code units that are neither word characters nor white space.\<close>

definition match_special :: "jsstring \<Rightarrow> jsstring" where
  "match_special s = filter (\<lambda>c. \<not> isWord c \<and> \<not> isSpace c) s"

text \<open>\<open>Math.ceil\<close> of a non-negative number.\<close>

definition Math_ceil :: "rat \<Rightarrow> nat" where
  "Math_ceil x = nat \<lceil>x\<rceil>"

section \<open>Pricing table\<close>

record modelConfig =
  avgCharsPerToken :: rat
  maxTokens :: nat
  costPer1kInput :: rat
  costPer1kOutput :: rat

definition gpt4_config :: modelConfig where
  "gpt4_config = \<lparr>avgCharsPerToken = 4, maxTokens = 8192, costPer1kInput = 0.03, costPer1kOutput = 0.06\<rparr>"

definition gpt4o_config :: modelConfig where
  "gpt4o_config = \<lparr>avgCharsPerToken = 4, maxTokens = 128000, costPer1kInput = 0.005, costPer1kOutput = 0.015\<rparr>"

definition gpt4turbo_config :: modelConfig where
  "gpt4turbo_config = \<lparr>avgCharsPerToken = 4, maxTokens = 128000, costPer1kInput = 0.01, costPer1kOutput = 0.03\<rparr>"

definition gpt35turbo_config :: modelConfig where
  "gpt35turbo_config = \<lparr>avgCharsPerToken = 4, maxTokens = 4096, costPer1kInput = 0.0015, costPer1kOutput = 0.002\<rparr>"

text \<open>
  \<open>this.modelConfigs\<close> is an object literal, so besides its own four keys it answers
  to the names of the members every object inherits from \<open>Object.prototype\<close>. What a
  lookup finds there is a function or an object: truthy, and with none of the fields of a
  profile.
\<close>

datatype configValue = Config modelConfig | Member

definition ownConfigs :: "(jsstring \<times> modelConfig) list" where
  "ownConfigs =
     [(str ''gpt-4'', gpt4_config), (str ''gpt-4o'', gpt4o_config),
      (str ''gpt-4-turbo'', gpt4turbo_config), (str ''gpt-3.5-turbo'', gpt35turbo_config)]"

definition inheritedMembers :: "jsstring list" where
  "inheritedMembers =
     [str ''constructor'', str ''hasOwnProperty'', str ''isPrototypeOf'',
      str ''propertyIsEnumerable'', str ''toLocaleString'', str ''toString'', str ''valueOf'',
      str ''__proto__'', str ''__defineGetter__'', str ''__defineSetter__'',
      str ''__lookupGetter__'', str ''__lookupSetter__'']"

definition modelConfigs :: "jsstring \<Rightarrow> configValue option" where
  "modelConfigs key =
     (case map_of ownConfigs key of
        Some c \<Rightarrow> Some (Config c)
      | None \<Rightarrow> if key \<in> set inheritedMembers then Some Member else None)"

definition defaultModel :: jsstring where
  "defaultModel = str ''gpt-4o''"

text \<open>\<open>this.modelConfigs[model] || this.modelConfigs[this.defaultModel]\<close>\<close>

definition getModelConfig :: "jsstring \<Rightarrow> configValue" where
  "getModelConfig model = (case modelConfigs model of Some v \<Rightarrow> v | None \<Rightarrow> Config gpt4o_config)"

text \<open>
  Reading a field of what the lookup found, for use in arithmetic: a profile gives the
  number, an inherited member gives \<open>undefined\<close>, which arithmetic turns into NaN.
\<close>

fun numField :: "(modelConfig \<Rightarrow> rat) \<Rightarrow> configValue \<Rightarrow> rat jsnum" where
  "numField f (Config c) = Num (f c)"
| "numField f Member = NaN"

section \<open>Token estimator\<close>

text \<open>\<open>Math.ceil(n / d)\<close> for a count \<open>n\<close> and a number \<open>d\<close>.\<close>

fun ceil_div :: "nat \<Rightarrow> rat jsnum \<Rightarrow> nat jsnum" where
  "ceil_div n (Num d) = Num (Math_ceil (of_nat n / d))"
| "ceil_div n NaN = NaN"

definition encode :: "jsval \<Rightarrow> jsstring \<Rightarrow> nat jsnum" where
  "encode text model =
     (case text of
        JStr s \<Rightarrow>
          if s = [] then Num 0
          else
            (let config = getModelConfig model;
                 normalizedText = replace_ws (trim s);
                 words = filter (\<lambda>word. length word > 0) (split_ws normalizedText);
                 specialChars = length (match_special normalizedText);
                 charBasedEstimate = ceil_div (length normalizedText) (numField avgCharsPerToken config);
                 wordBasedEstimate = Math_ceil (of_nat (length words) * 1.3);
                 specialCharTokens = Math_ceil (of_nat specialChars * 0.5)
             in Math_max charBasedEstimate (Num (wordBasedEstimate + specialCharTokens)))
      | _ \<Rightarrow> Num 0)"

text \<open>
  \<open>encodeChat\<close>: the loop over the messages carries \<open>totalTokens\<close>. A message that is
  falsy or not of type object is skipped; the role, the content and the name count only
  when they are truthy.
\<close>

fun encodeChat_loop :: "jsstring \<Rightarrow> jsval list \<Rightarrow> nat jsnum \<Rightarrow> nat jsnum" where
  "encodeChat_loop model [] totalTokens = totalTokens"
| "encodeChat_loop model (message # rest) totalTokens =
     (if \<not> truthy message \<or> \<not> typeof_object message then encodeChat_loop model rest totalTokens
      else
        (let t1 = js_add totalTokens (Num 4);
             t2 = (if truthy (getProp message (str ''role''))
                   then js_add t1 (encode (getProp message (str ''role'')) model) else t1);
             t3 = (if truthy (getProp message (str ''content''))
                   then js_add t2 (encode (getProp message (str ''content'')) model) else t2);
             t4 = (if truthy (getProp message (str ''name''))
                   then js_add t3 (js_add (encode (getProp message (str ''name'')) model) (Num 1)) else t3)
         in encodeChat_loop model rest t4))"

definition encodeChat :: "jsval \<Rightarrow> jsstring \<Rightarrow> nat jsnum" where
  "encodeChat messages model =
     (case messages of
        JArr ms \<Rightarrow> js_add (encodeChat_loop model ms (js_add (Num 0) (Num 4))) (Num 2)
      | _ \<Rightarrow> Num 0)"

section \<open>Cost calculator\<close>

text \<open>
  \<open>(tokens / 1000) * price\<close>. The arithmetic is the exact one on the rationals, where
  JavaScript rounds the prices, each quotient, each product and the sum to the nearest
  double: a cost here is the number that the result there approximates (for 500 input and
  1000 output tokens on the profile of \<open>gpt-4o\<close>, 0.0175 here and 0.017499999999999998
  there). The cost of no tokens is 0 in both, and doubling the two token counts doubles the
  cost in both, doubling being exact on doubles.
\<close>

fun per1k :: "nat jsnum \<Rightarrow> rat jsnum \<Rightarrow> rat jsnum" where
  "per1k (Num tokens) (Num price) = Num ((of_nat tokens / 1000) * price)"
| "per1k x y = NaN"

definition calculateCost :: "nat jsnum \<Rightarrow> nat jsnum \<Rightarrow> jsstring \<Rightarrow> rat jsnum" where
  "calculateCost inputTokens outputTokens model =
     (let config = getModelConfig model;
          inputCost = per1k inputTokens (numField costPer1kInput config);
          outputCost = per1k outputTokens (numField costPer1kOutput config)
      in js_add inputCost outputCost)"

section \<open>Model detector\<close>

text \<open>
  \<open>toLowerCase\<close> on the ASCII letters, where the markers of \<open>detectModel\<close> live. The
  other code units stay as they are: JavaScript lowers some of them, always to code units
  that occur in no marker, so every \<open>includes\<close> test below answers as it does in
  JavaScript.
\<close>

definition lowerUnit :: "nat \<Rightarrow> nat" where
  "lowerUnit c = (if 65 \<le> c \<and> c \<le> 90 then c + 32 else c)"

definition toLowerCase :: "jsstring \<Rightarrow> jsstring" where
  "toLowerCase s = map lowerUnit s"

text \<open>\<open>s.includes(p)\<close>: \<open>p\<close> occurs in \<open>s\<close> as a contiguous run.\<close>

definition str_includes :: "jsstring \<Rightarrow> jsstring \<Rightarrow> bool" where
  "str_includes s p = sublist p s"

text \<open>
  The body of \<open>detectModel\<close> on the lowered text, and \<open>detectModel\<close> on any value:
  \<open>text.toLowerCase()\<close> throws a TypeError when \<open>text\<close> is not a string (\<open>null\<close> and
  \<open>undefined\<close> have no properties, the other values no such method).
\<close>

datatype exn = TypeError

definition detectModel_markers :: "jsstring \<Rightarrow> jsstring" where
  "detectModel_markers lowerText =
     (if str_includes lowerText (str ''gpt-4o'') then str ''gpt-4o''
      else if str_includes lowerText (str ''gpt-4-turbo'') \<or> str_includes lowerText (str ''gpt-4 turbo'')
        then str ''gpt-4-turbo''
      else if str_includes lowerText (str ''gpt-4'') then str ''gpt-4''
      else if str_includes lowerText (str ''gpt-3.5'') \<or> str_includes lowerText (str ''gpt-3.5-turbo'')
        then str ''gpt-3.5-turbo''
      else defaultModel)"

definition detectModel :: "jsval \<Rightarrow> exn + jsstring" where
  "detectModel text =
     (case text of
        JStr s \<Rightarrow> Inr (detectModel_markers (toLowerCase s))
      | _ \<Rightarrow> Inl TypeError)"

section \<open>Conversation accounting\<close>

text \<open>
  A message as \<open>extractMessageFromElement\<close> builds it (the DOM element it came from is
  left out), and the conversation object. \<open>urlId\<close> is \<open>None\<close> when the property is
  absent or \<open>null\<close>.
\<close>

record message =
  role :: jsstring
  content :: jsstring
  timestamp :: nat

record conversation =
  convId :: jsstring
  urlId :: "jsstring option"
  messages :: "message list"
  totalInputTokens :: "nat jsnum"
  totalOutputTokens :: "nat jsnum"
  totalCost :: "rat jsnum"
  model :: jsstring
  startTime :: nat

text \<open>\<open>createNewConversation\<close>, with the generated id and the clock reading passed in.\<close>

definition createNewConversation :: "jsstring \<Rightarrow> nat \<Rightarrow> conversation" where
  "createNewConversation newId now =
     \<lparr>convId = newId, urlId = None, messages = [], totalInputTokens = Num 0,
      totalOutputTokens = Num 0, totalCost = Num 0, model = str ''gpt-4o'', startTime = now\<rparr>"

text \<open>
  \<open>processMessages\<close> on \<open>this.currentConversation\<close>: the \<open>forEach\<close> carries the
  conversation and \<open>hasNewMessages\<close>; the result holds the conversation and the flag.
  Saving, the overlay and the message to the popup are left to the caller.
\<close>

fun processMessages_forEach :: "conversation \<Rightarrow> bool \<Rightarrow> message list \<Rightarrow> conversation \<times> bool" where
  "processMessages_forEach c hasNewMessages [] = (c, hasNewMessages)"
| "processMessages_forEach c hasNewMessages (message # rest) =
     (let exists = list_ex (\<lambda>existing. content existing = content message \<and> role existing = role message)
                     (messages c)
      in if \<not> exists then
           (let c1 = c\<lparr>messages := messages c @ [message]\<rparr>;
                tokens = encode (JStr (content message)) (model c1);
                c2 = (if role message = str ''user''
                        then c1\<lparr>totalInputTokens := js_add (totalInputTokens c1) tokens\<rparr>
                      else if role message = str ''assistant''
                        then c1\<lparr>totalOutputTokens := js_add (totalOutputTokens c1) tokens\<rparr>
                      else c1)
            in processMessages_forEach c2 True rest)
         else processMessages_forEach c hasNewMessages rest)"

definition processMessages :: "conversation \<Rightarrow> message list \<Rightarrow> conversation \<times> bool" where
  "processMessages c msgs =
     (let (c', hasNewMessages) = processMessages_forEach c False msgs
      in if hasNewMessages
         then (c'\<lparr>totalCost := calculateCost (totalInputTokens c') (totalOutputTokens c') (model c')\<rparr>, True)
         else (c', False))"

section \<open>The tracker\<close>

text \<open>
  A conversation in the history carries an end time. The tracker holds the current
  conversation, its observers, the default model of the settings, the history kept in
  local storage, and the calls of \<open>saveConversationToHistory\<close> that wait at their
  \<open>await\<close>, oldest first, each with the history its \<open>chrome.storage.local.get\<close> reads.
\<close>

record archived = conversation +
  endTime :: nat

record tracker =
  currentConversation :: conversation
  observers :: "nat list"
  settingsDefaultModel :: jsstring
  conversationsHistory :: "archived list"
  pendingHistorySaves :: "archived list list"

text \<open>\<open>xs.slice(-n)\<close>: the last \<open>n\<close> elements.\<close>

definition slice_last :: "nat \<Rightarrow> 'a list \<Rightarrow> 'a list" where
  "slice_last n xs = drop (length xs - n) xs"

text \<open>\<open>performMemoryCleanup\<close>: its part on the conversation, and the whole.\<close>

definition cleanupConversation :: "conversation \<Rightarrow> conversation" where
  "cleanupConversation c =
     (if length (messages c) > 100 then c\<lparr>messages := slice_last 50 (messages c)\<rparr> else c)"

definition performMemoryCleanup :: "tracker \<Rightarrow> tracker" where
  "performMemoryCleanup t =
     (let t1 = t\<lparr>currentConversation := cleanupConversation (currentConversation t)\<rparr>
      in if length (observers t1) > 10 then t1\<lparr>observers := slice_last 5 (observers t1)\<rparr> else t1)"

text \<open>
  \<open>detectCurrentModel\<close>, over the text contents of the model indicators found in the
  page.
\<close>

fun detectCurrentModel :: "jsstring list \<Rightarrow> jsstring \<Rightarrow> jsstring" where
  "detectCurrentModel [] settingsDefault = settingsDefault"
| "detectCurrentModel (textContent # rest) settingsDefault =
     (let text = toLowerCase textContent;
          model = detectModel_markers (toLowerCase text)
      in if model \<noteq> defaultModel then model else detectCurrentModel rest settingsDefault)"

text \<open>
  \<open>saveConversationToHistory\<close> is an async function that nobody awaits. Its call runs up
  to \<open>await chrome.storage.local.get(...)\<close> and returns: the read is issued then, so it
  yields the history as stored at the call. The rest of the body runs once the synchronous
  code of the caller has run to its end: it pushes \<open>this.currentConversation\<close>, as it is
  then, onto the history that was read, keeps the last 100 entries
  (\<open>history.splice(0, history.length - 100)\<close>) and stores the result in place of the
  stored history. The waiting calls resume in the order of their calls.
\<close>

definition saveConversationToHistory_call :: "tracker \<Rightarrow> tracker" where
  "saveConversationToHistory_call t =
     t\<lparr>pendingHistorySaves := pendingHistorySaves t @ [conversationsHistory t]\<rparr>"

definition saveConversationToHistory_resume :: "nat \<Rightarrow> tracker \<Rightarrow> tracker" where
  "saveConversationToHistory_resume now t =
     (case pendingHistorySaves t of
        [] \<Rightarrow> t
      | result # waiting \<Rightarrow>
          (let history = result @ [conversation.extend (currentConversation t) \<lparr>endTime = now\<rparr>];
               history' = (if length history > 100 then drop (length history - 100) history else history)
           in t\<lparr>conversationsHistory := history', pendingHistorySaves := waiting\<rparr>))"

text \<open>
  \<open>startNewConversation\<close>, with the generated id, the clock reading and the texts of the
  model indicators passed in.
\<close>

definition startNewConversation ::
  "jsstring option \<Rightarrow> jsstring \<Rightarrow> nat \<Rightarrow> jsstring list \<Rightarrow> tracker \<Rightarrow> tracker" where
  "startNewConversation newUrlId newId now indicators t =
     (let t1 = (if length (messages (currentConversation t)) > 0
                then saveConversationToHistory_call t else t)
      in t1\<lparr>currentConversation :=
             \<lparr>convId = newId, urlId = newUrlId, messages = [], totalInputTokens = Num 0,
              totalOutputTokens = Num 0, totalCost = Num 0,
              model = detectCurrentModel indicators (settingsDefaultModel t1), startTime = now\<rparr>\<rparr>)"

text \<open>
  \<open>url.match(/\/c\/([a-zA-Z0-9-]+)/)\<close>: the first place where \<open>/c/\<close> is followed by
  at least one letter, digit or hyphen; the group is the longest run of them.
\<close>

definition isIdChar :: "nat \<Rightarrow> bool" where
  "isIdChar c = ((97 \<le> c \<and> c \<le> 122) \<or> (65 \<le> c \<and> c \<le> 90) \<or> (48 \<le> c \<and> c \<le> 57) \<or> c = 45)"

fun conversationMatch :: "jsstring \<Rightarrow> jsstring option" where
  "conversationMatch [] = None"
| "conversationMatch (c # cs) =
     (if prefix (str ''/c/'') (c # cs) \<and> takeWhile isIdChar (drop 3 (c # cs)) \<noteq> []
      then Some (takeWhile isIdChar (drop 3 (c # cs)))
      else conversationMatch cs)"

text \<open>
  The test of \<open>detectNewConversation\<close> on the match and the stored \<open>urlId\<close>, and the
  function itself.
\<close>

definition shouldStartNew :: "conversation \<Rightarrow> jsstring option \<Rightarrow> bool" where
  "shouldStartNew c observed =
     (case observed of
        Some u \<Rightarrow> Some u \<noteq> urlId c
      | None \<Rightarrow> (case urlId c of Some s \<Rightarrow> s \<noteq> [] | None \<Rightarrow> False))"

definition detectNewConversation ::
  "jsstring \<Rightarrow> jsstring \<Rightarrow> nat \<Rightarrow> jsstring list \<Rightarrow> tracker \<Rightarrow> tracker" where
  "detectNewConversation url newId now indicators t =
     (case conversationMatch url of
        Some u \<Rightarrow>
          if Some u \<noteq> urlId (currentConversation t)
          then startNewConversation (Some u) newId now indicators t
          else t
      | None \<Rightarrow>
          if (case urlId (currentConversation t) of Some s \<Rightarrow> s \<noteq> [] | None \<Rightarrow> False)
          then startNewConversation None newId now indicators t
          else t)"

section \<open>The wording of the specification\<close>

subsection \<open>The estimate as the specification words it\<close>

text \<open>
  The normalized text is the text trimmed, with every run of white space collapsed to one
  space. A word is a maximal run of code units that are not white space; the words are
  counted by their first code units. A special character is a code unit that is neither a
  word character nor white space.
\<close>

definition spec_normalize :: "jsstring \<Rightarrow> jsstring" where
  "spec_normalize text = replace_ws (trim text)"

fun word_starts :: "bool \<Rightarrow> jsstring \<Rightarrow> nat" where
  "word_starts inw [] = 0"
| "word_starts inw (c # cs) =
     (if isSpace c then word_starts False cs
      else (if inw then 0 else 1) + word_starts True cs)"

definition spec_wordCount :: "jsstring \<Rightarrow> nat" where
  "spec_wordCount s = word_starts False s"

definition spec_specialCount :: "jsstring \<Rightarrow> nat" where
  "spec_specialCount s = length (filter (\<lambda>c. \<not> isWord c \<and> \<not> isSpace c) s)"

text \<open>
  The Model Profile of a model id: the one the pricing table has for it, or the default
  profile, that of \<open>gpt-4o\<close>, when the table has none.
\<close>

definition spec_profile :: "jsstring \<Rightarrow> modelConfig" where
  "spec_profile modelId = (case map_of ownConfigs modelId of Some p \<Rightarrow> p | None \<Rightarrow> gpt4o_config)"

definition spec_estimate :: "jsstring \<Rightarrow> jsstring \<Rightarrow> nat" where
  "spec_estimate text modelId =
     (let profile = spec_profile modelId;
          L = length (spec_normalize text);
          W = spec_wordCount (spec_normalize text);
          S = spec_specialCount (spec_normalize text)
      in max (Math_ceil (of_nat L / avgCharsPerToken profile))
             (Math_ceil (of_nat W * 1.3) + Math_ceil (of_nat S * 0.5)))"

text \<open>The cost as the specification words it.\<close>

definition spec_cost :: "nat \<Rightarrow> nat \<Rightarrow> jsstring \<Rightarrow> rat" where
  "spec_cost inputTokens outputTokens modelId =
     (of_nat inputTokens / 1000) * costPer1kInput (spec_profile modelId)
       + (of_nat outputTokens / 1000) * costPer1kOutput (spec_profile modelId)"

subsection \<open>Letter case\<close>

text \<open>
  Two code units are the same up to case when they are equal or are the capital and the
  small form of one ASCII letter; two texts are case variants of each other when they have
  the same length and their code units are pairwise the same up to case.
\<close>

definition caseVariantUnit :: "nat \<Rightarrow> nat \<Rightarrow> bool" where
  "caseVariantUnit a b =
     (a = b \<or> (65 \<le> a \<and> a \<le> 90 \<and> b = a + 32) \<or> (65 \<le> b \<and> b \<le> 90 \<and> a = b + 32))"

definition caseVariant :: "jsstring \<Rightarrow> jsstring \<Rightarrow> bool" where
  "caseVariant s t = list_all2 caseVariantUnit s t"

subsection \<open>The chat estimate as the specification words it\<close>

text \<open>
  A chat message of the specification: a role, a content and an optional name, and the
  JavaScript object it stands for. \<open>spec_estimateChat\<close> counts the name whenever the
  field is present.
\<close>

record chatMessage =
  chat_role :: jsstring
  chat_content :: jsstring
  chat_name :: "jsstring option"

definition toObject :: "chatMessage \<Rightarrow> jsval" where
  "toObject m =
     JObj ([(str ''role'', JStr (chat_role m)), (str ''content'', JStr (chat_content m))]
           @ (case chat_name m of Some n \<Rightarrow> [(str ''name'', JStr n)] | None \<Rightarrow> []))"

text \<open>The sum of a list of numbers.\<close>

definition js_sum :: "nat jsnum list \<Rightarrow> nat jsnum" where
  "js_sum xs = foldr js_add xs (Num 0)"

definition spec_messageTokens :: "chatMessage \<Rightarrow> jsstring \<Rightarrow> nat jsnum" where
  "spec_messageTokens m modelId =
     js_add (js_add (js_add (Num 4) (encode (JStr (chat_role m)) modelId))
                    (encode (JStr (chat_content m)) modelId))
            (case chat_name m of Some n \<Rightarrow> js_add (encode (JStr n) modelId) (Num 1) | None \<Rightarrow> Num 0)"

definition spec_estimateChat :: "chatMessage list \<Rightarrow> jsstring \<Rightarrow> nat jsnum" where
  "spec_estimateChat ms modelId =
     js_add (js_add (Num 4) (js_sum (map (\<lambda>m. spec_messageTokens m modelId) ms))) (Num 2)"

text \<open>What a message adds in the code: the name counts when it is present and not empty.\<close>

definition messageTokens :: "chatMessage \<Rightarrow> jsstring \<Rightarrow> nat jsnum" where
  "messageTokens m modelId =
     js_add (js_add (js_add (Num 4) (encode (JStr (chat_role m)) modelId))
                    (encode (JStr (chat_content m)) modelId))
            (case chat_name m of
               Some n \<Rightarrow> if n = [] then Num 0 else js_add (encode (JStr n) modelId) (Num 1)
             | None \<Rightarrow> Num 0)"

subsection \<open>Recorded messages and the accounting invariant\<close>

text \<open>
  A candidate is already recorded when a message of the recorded sequence has its role and
  its content. The per-message estimates of one role are summed over the recorded
  sequence with the active model. A conversation is accounted when its two cumulative
  counts are these sums for the user and the assistant role and its cumulative cost is
  \<open>calculateCost\<close> of the two counts and the active model.
\<close>

definition alreadyRecorded :: "conversation \<Rightarrow> message \<Rightarrow> bool" where
  "alreadyRecorded c m =
     list_ex (\<lambda>existing. content existing = content m \<and> role existing = role m) (messages c)"

definition tokensOfRole :: "jsstring \<Rightarrow> conversation \<Rightarrow> nat jsnum" where
  "tokensOfRole r c =
     js_sum (map (\<lambda>m. encode (JStr (content m)) (model c)) (filter (\<lambda>m. role m = r) (messages c)))"

definition accounted :: "conversation \<Rightarrow> bool" where
  "accounted c =
     (totalInputTokens c = tokensOfRole (str ''user'') c
      \<and> totalOutputTokens c = tokensOfRole (str ''assistant'') c
      \<and> totalCost c = calculateCost (totalInputTokens c) (totalOutputTokens c) (model c))"

text \<open>What the branch of \<open>processMessages\<close> for a new message does to the conversation.\<close>

definition record_message :: "conversation \<Rightarrow> message \<Rightarrow> conversation" where
  "record_message c m =
     (let c1 = c\<lparr>messages := messages c @ [m]\<rparr>;
          tokens = encode (JStr (content m)) (model c1)
      in if role m = str ''user'' then c1\<lparr>totalInputTokens := js_add (totalInputTokens c1) tokens\<rparr>
         else if role m = str ''assistant'' then c1\<lparr>totalOutputTokens := js_add (totalOutputTokens c1) tokens\<rparr>
         else c1)"

text \<open>
  Duplicate detection as the specification words it: every candidate of a batch is judged
  against the sequence recorded when the call started.
\<close>

fun snapshot_forEach :: "message list \<Rightarrow> conversation \<Rightarrow> bool \<Rightarrow> message list \<Rightarrow> conversation \<times> bool" where
  "snapshot_forEach recorded c hasNewMessages [] = (c, hasNewMessages)"
| "snapshot_forEach recorded c hasNewMessages (message # rest) =
     (if \<not> list_ex (\<lambda>existing. content existing = content message \<and> role existing = role message) recorded
      then snapshot_forEach recorded (record_message c message) True rest
      else snapshot_forEach recorded c hasNewMessages rest)"

definition spec_ingest_snapshot :: "conversation \<Rightarrow> message list \<Rightarrow> conversation \<times> bool" where
  "spec_ingest_snapshot c msgs =
     (let (c', hasNewMessages) = snapshot_forEach (messages c) c False msgs
      in if hasNewMessages
         then (c'\<lparr>totalCost := calculateCost (totalInputTokens c') (totalOutputTokens c') (model c')\<rparr>, True)
         else (c', False))"

text \<open>
  The operations on an open conversation, a fresh conversation with zeroed totals, and
  running a list of operations from a state.
\<close>

datatype operation = Ingest "message list" | MemoryCleanup

fun apply_operation :: "conversation \<Rightarrow> operation \<Rightarrow> conversation" where
  "apply_operation c (Ingest msgs) = fst (processMessages c msgs)"
| "apply_operation c MemoryCleanup = cleanupConversation c"

definition freshConversation :: "jsstring \<Rightarrow> jsstring option \<Rightarrow> jsstring \<Rightarrow> nat \<Rightarrow> conversation" where
  "freshConversation newId newUrlId modelId now =
     \<lparr>convId = newId, urlId = newUrlId, messages = [], totalInputTokens = Num 0,
      totalOutputTokens = Num 0, totalCost = Num 0, model = modelId, startTime = now\<rparr>"

subsection \<open>Example data\<close>

text \<open>
  Two messages, a batch of 101 user messages with pairwise different contents, and the
  conversation that has recorded the batch.
\<close>

definition hello :: message where
  "hello = \<lparr>role = str ''user'', content = str ''Hello, world!'', timestamp = 1\<rparr>"

definition reply :: message where
  "reply = \<lparr>role = str ''assistant'', content = str ''Hi there, how can I help?'', timestamp = 3\<rparr>"

definition filler :: "nat \<Rightarrow> message" where
  "filler i = \<lparr>role = str ''user'', content = str ''note '' @ replicate (Suc i) 120, timestamp = i\<rparr>"

definition batch101 :: "message list" where
  "batch101 = map filler [0..<101]"

definition crowded :: conversation where
  "crowded = fst (processMessages (createNewConversation (str ''conv_1'') 0) batch101)"

text \<open>
  A tracker whose conversation carries the url id \<open>abc\<close> and one recorded message;
  the default model of its settings is \<open>gpt-4\<close>.
\<close>

definition tracker_abc :: tracker where
  "tracker_abc =
     \<lparr>currentConversation =
        \<lparr>convId = str ''conv_1'', urlId = Some (str ''abc''), messages = [hello],
         totalInputTokens = Num 4, totalOutputTokens = Num 0, totalCost = Num 0.00002,
         model = str ''gpt-4o'', startTime = 0\<rparr>,
      observers = [], settingsDefaultModel = str ''gpt-4'', conversationsHistory = [],
      pendingHistorySaves = []\<rparr>"

section \<open>Evaluation rules\<close>

lemma Math_ceil_numeral_div:
  "Math_ceil (numeral a / numeral b) = nat (- (- numeral a div numeral b))"
  unfolding Math_ceil_def
  using ceiling_divide_eq_div [of "numeral a" "numeral b", where ?'a = rat]
  by simp

lemma Math_ceil_numeral: "Math_ceil (numeral a) = numeral a"
  unfolding Math_ceil_def by simp

lemma Math_ceil_0: "Math_ceil 0 = 0"
  unfolding Math_ceil_def by simp

lemma Math_ceil_1: "Math_ceil 1 = 1"
  unfolding Math_ceil_def by simp

lemma Math_ceil_mono: "x \<le> y \<Longrightarrow> Math_ceil x \<le> Math_ceil y"
  unfolding Math_ceil_def by (simp add: ceiling_mono nat_mono)

lemma Math_ceil_one_div: "Math_ceil (1 / numeral b) = nat (- (- 1 div numeral b))"
  unfolding Math_ceil_def
  using ceiling_divide_eq_div [of 1 "numeral b", where ?'a = rat]
  by simp

lemmas js_eval = str_def isSpace_def isWord_def trim_def Math_ceil_numeral_div Math_ceil_numeral
  Math_ceil_0 Math_ceil_1 Math_ceil_one_div spec_profile_def ownConfigs_def inheritedMembers_def
  gpt4o_config_def gpt4_config_def gpt4turbo_config_def gpt35turbo_config_def

lemmas spec_estimate_eval = spec_estimate_def spec_normalize_def spec_wordCount_def
  spec_specialCount_def js_eval

section \<open>Looking up a model\<close>

lemma modelConfigs_default: "modelConfigs defaultModel = Some (Config gpt4o_config)"
  by (simp add: modelConfigs_def ownConfigs_def defaultModel_def str_def)

lemma own_not_inherited: "key \<in> set inheritedMembers \<Longrightarrow> map_of ownConfigs key = None"
  by (auto simp: inheritedMembers_def ownConfigs_def str_def)

text \<open>
  A model id that is no inherited member name gets the profile of the specification; an
  inherited member name gets the member.
\<close>

lemma getModelConfig_profile:
  "modelId \<notin> set inheritedMembers \<Longrightarrow> getModelConfig modelId = Config (spec_profile modelId)"
  by (simp add: getModelConfig_def modelConfigs_def spec_profile_def split: option.split)

lemma getModelConfig_member:
  "modelId \<in> set inheritedMembers \<Longrightarrow> getModelConfig modelId = Member"
  by (simp add: getModelConfig_def modelConfigs_def own_not_inherited)

lemma known_models:
  "str ''gpt-4o'' \<notin> set inheritedMembers" "str ''gpt-4'' \<notin> set inheritedMembers"
  "str ''gpt-4-turbo'' \<notin> set inheritedMembers" "str ''gpt-3.5-turbo'' \<notin> set inheritedMembers"
  by (simp_all add: inheritedMembers_def str_def)

lemma constructor_inherited: "str ''constructor'' \<in> set inheritedMembers"
  by (simp add: inheritedMembers_def)

section \<open>The estimate formula\<close>

lemma word_starts_run:
  "word_starts inw s =
     (if \<not> inw \<and> s \<noteq> [] \<and> \<not> isSpace (hd s) then 1 else 0)
       + word_starts True (dropWhile (\<lambda>c. \<not> isSpace c) s)"
  by (induction s arbitrary: inw) auto

lemma word_starts_skip: "word_starts False (dropWhile isSpace s) = word_starts False s"
  by (induction s) auto

lemma word_starts_space_hd:
  "s \<noteq> [] \<Longrightarrow> isSpace (hd s) \<Longrightarrow> word_starts inw s = word_starts False (dropWhile isSpace s)"
  by (cases s) (simp_all add: word_starts_skip)

lemma takeWhile_nonempty_iff: "takeWhile P s \<noteq> [] \<longleftrightarrow> s \<noteq> [] \<and> P (hd s)"
  by (cases s) auto

text \<open>The non-empty pieces of \<open>split(/\s+/)\<close> are as many as the words.\<close>

lemma split_ws_count:
  "length (filter (\<lambda>word. length word > 0) (split_ws s)) = word_starts False s"
proof (induction s rule: split_ws.induct)
  case (1 s)
  define w where "w = takeWhile (\<lambda>c. \<not> isSpace c) s"
  define r where "r = dropWhile (\<lambda>c. \<not> isSpace c) s"
  have first: "(if w \<noteq> [] then 1 else 0) = (if s \<noteq> [] \<and> \<not> isSpace (hd s) then 1 else (0::nat))"
    unfolding w_def by (simp add: takeWhile_nonempty_iff)
  have run: "word_starts False s = (if w \<noteq> [] then 1 else 0) + word_starts True r"
    using word_starts_run [of False s] first unfolding r_def by simp
  show ?case
  proof (cases "r = []")
    case True
    then have "split_ws s = [w]"
      unfolding r_def w_def by (subst split_ws.simps) (auto simp: Let_def)
    then show ?thesis using run True by simp
  next
    case False
    then have sp: "split_ws s = w # split_ws (dropWhile isSpace r)"
      unfolding r_def w_def by (subst split_ws.simps) (auto simp: Let_def)
    have "isSpace (hd r)"
      using hd_dropWhile [of "\<lambda>c. \<not> isSpace c" s] False unfolding r_def by simp
    then have "word_starts True r = word_starts False (dropWhile isSpace r)"
      using False by (rule word_starts_space_hd [rotated])
    moreover have "length (filter (\<lambda>word. length word > 0) (split_ws (dropWhile isSpace r)))
        = word_starts False (dropWhile isSpace r)"
      using 1 [of w r] False unfolding w_def r_def by simp
    ultimately show ?thesis using run sp by simp
  qed
qed

lemma encode_spec_estimate:
  "modelId \<notin> set inheritedMembers \<Longrightarrow> encode (JStr text) modelId = Num (spec_estimate text modelId)"
proof (cases "text = []")
  case True
  then show ?thesis
    by (simp add: encode_def spec_estimate_def spec_normalize_def trim_def
        spec_wordCount_def spec_specialCount_def Math_ceil_def)
next
  case False
  assume "modelId \<notin> set inheritedMembers"
  then show ?thesis
    using False
    by (simp add: encode_def spec_estimate_def spec_normalize_def Let_def getModelConfig_profile
        split_ws_count [simplified] match_special_def spec_wordCount_def spec_specialCount_def)
qed

lemma encode_member:
  "modelId \<in> set inheritedMembers \<Longrightarrow> text \<noteq> [] \<Longrightarrow> encode (JStr text) modelId = NaN"
  by (simp add: encode_def Let_def getModelConfig_member)

lemma encode_empty: "encode (JStr []) modelId = Num 0"
  by (simp add: encode_def)

lemmas encode_eval = encode_spec_estimate known_models spec_estimate_eval

text \<open>
  Claim C1. For every text and every model id that is no inherited member name,
  \<open>encode\<close> returns the maximum of the character-based estimate
  \<open>ceil(L / avgCharsPerToken)\<close> and the word-based estimate plus the surcharge
  \<open>ceil(W * 1.3) + ceil(S * 0.5)\<close>, where \<open>L\<close>, \<open>W\<close> and \<open>S\<close> are the length, the number of
  words and the number of special characters of the normalized text and the profile is the
  model's, or that of \<open>gpt-4o\<close> (4 characters per token) when the table has no such
  model. For \<open>Hello, world!\<close> (13 code units, 2 words, 2 special characters) and
  \<open>gpt-4o\<close> the estimate is 4. For the model id \<open>constructor\<close>, which the table does
  not have, the lookup finds the inherited member and the estimate is NaN, where the
  formula on the default profile gives 4.
\<close>

theorem encode_formula:
  "(modelId \<notin> set inheritedMembers \<longrightarrow> encode (JStr text) modelId = Num (spec_estimate text modelId))
   \<and> map_of ownConfigs (str ''gpt-4o'') = Some gpt4o_config
   \<and> avgCharsPerToken gpt4o_config = 4
   \<and> length (spec_normalize (str ''Hello, world!'')) = 13
   \<and> spec_wordCount (spec_normalize (str ''Hello, world!'')) = 2
   \<and> spec_specialCount (spec_normalize (str ''Hello, world!'')) = 2
   \<and> encode (JStr (str ''Hello, world!'')) (str ''gpt-4o'') = Num 4
   \<and> map_of ownConfigs (str ''constructor'') = None
   \<and> spec_estimate (str ''Hello, world!'') (str ''constructor'') = 4
   \<and> encode (JStr (str ''Hello, world!'')) (str ''constructor'') = NaN"
proof (intro conjI impI)
  assume "modelId \<notin> set inheritedMembers"
  then show "encode (JStr text) modelId = Num (spec_estimate text modelId)"
    by (rule encode_spec_estimate)
next
  show "map_of ownConfigs (str ''gpt-4o'') = Some gpt4o_config"
    by (simp add: ownConfigs_def str_def)
  show "avgCharsPerToken gpt4o_config = 4"
    by (simp add: gpt4o_config_def)
  show "length (spec_normalize (str ''Hello, world!'')) = 13"
    by (simp add: spec_estimate_eval)
  show "spec_wordCount (spec_normalize (str ''Hello, world!'')) = 2"
    by (simp add: spec_estimate_eval)
  show "spec_specialCount (spec_normalize (str ''Hello, world!'')) = 2"
    by (simp add: spec_estimate_eval)
  show "encode (JStr (str ''Hello, world!'')) (str ''gpt-4o'') = Num 4"
    by (simp add: encode_eval)
  show "map_of ownConfigs (str ''constructor'') = None"
    by (simp add: ownConfigs_def str_def)
  show "spec_estimate (str ''Hello, world!'') (str ''constructor'') = 4"
    by (simp add: spec_estimate_eval)
  show "encode (JStr (str ''Hello, world!'')) (str ''constructor'') = NaN"
    by (rule encode_member [OF constructor_inherited]) (simp add: str_def)
qed

theorem encode_formula_witness:
  "str ''my-model'' \<notin> set inheritedMembers
   \<and> map_of ownConfigs (str ''my-model'') = None
   \<and> encode (JStr (str ''  tokens:  a, b! '')) (str ''my-model'') = Num 6"
proof -
  have a: "str ''my-model'' \<notin> set inheritedMembers"
    by (simp add: inheritedMembers_def str_def)
  have b: "spec_estimate (str ''  tokens:  a, b! '') (str ''my-model'') = 6"
    by (simp add: spec_estimate_eval)
  have c: "map_of ownConfigs (str ''my-model'') = None"
    by (simp add: ownConfigs_def str_def)
  have "encode (JStr (str ''  tokens:  a, b! '')) (str ''my-model'')
      = Num (spec_estimate (str ''  tokens:  a, b! '') (str ''my-model''))"
    using a encode_formula [of "str ''my-model''" "str ''  tokens:  a, b! ''"] by blast
  then show ?thesis
    using a c by (simp only: b) simp
qed

lemma lowerUnit_idem: "lowerUnit (lowerUnit c) = lowerUnit c"
  by (simp add: lowerUnit_def)

lemma toLowerCase_idem: "toLowerCase (toLowerCase s) = toLowerCase s"
  by (simp add: toLowerCase_def lowerUnit_idem)

lemmas detect_eval = detectModel_def detectModel_markers_def str_includes_def toLowerCase_def
  lowerUnit_def defaultModel_def str_def sublist_Cons_right

section \<open>The cost formula\<close>

lemma calculateCost_profile:
  "modelId \<notin> set inheritedMembers \<Longrightarrow>
   calculateCost (Num inputTokens) (Num outputTokens) modelId = Num (spec_cost inputTokens outputTokens modelId)"
  by (simp add: calculateCost_def Let_def getModelConfig_profile spec_cost_def)

lemma calculateCost_member:
  "modelId \<in> set inheritedMembers \<Longrightarrow> calculateCost inputTokens outputTokens modelId = NaN"
  by (simp add: calculateCost_def Let_def getModelConfig_member)

lemma spec_cost_zero: "spec_cost 0 0 modelId = 0"
  by (simp add: spec_cost_def)

lemma spec_cost_double: "spec_cost (2 * a) (2 * b) modelId = 2 * spec_cost a b modelId"
  by (simp add: spec_cost_def algebra_simps)

text \<open>
  Claim C5. For all token counts and every model id that is no inherited member name,
  \<open>calculateCost\<close> is
  \<open>(inputTokens / 1000) * costPer1kInput + (outputTokens / 1000) * costPer1kOutput\<close> on
  the profile of the model, or on that of \<open>gpt-4o\<close> when the table has no such model,
  with no rounding; the cost of no tokens is 0, and doubling both counts doubles the cost.
  For the model id \<open>constructor\<close> the cost of no tokens is NaN.
\<close>

theorem calculateCost_linear:
  "(modelId \<notin> set inheritedMembers \<longrightarrow>
      calculateCost (Num inputTokens) (Num outputTokens) modelId
        = Num ((of_nat inputTokens / 1000) * costPer1kInput (spec_profile modelId)
               + (of_nat outputTokens / 1000) * costPer1kOutput (spec_profile modelId))
      \<and> calculateCost (Num 0) (Num 0) modelId = Num 0
      \<and> calculateCost (Num (2 * a)) (Num (2 * b)) modelId = Num (2 * spec_cost a b modelId)
      \<and> calculateCost (Num a) (Num b) modelId = Num (spec_cost a b modelId))
   \<and> map_of ownConfigs (str ''constructor'') = None
   \<and> calculateCost (Num 0) (Num 0) (str ''constructor'') = NaN"
proof (intro conjI impI)
  assume m: "modelId \<notin> set inheritedMembers"
  show "calculateCost (Num inputTokens) (Num outputTokens) modelId
        = Num ((of_nat inputTokens / 1000) * costPer1kInput (spec_profile modelId)
               + (of_nat outputTokens / 1000) * costPer1kOutput (spec_profile modelId))"
    using calculateCost_profile [OF m] by (simp add: spec_cost_def)
  show "calculateCost (Num 0) (Num 0) modelId = Num 0"
    by (simp only: calculateCost_profile [OF m] spec_cost_zero)
  show "calculateCost (Num (2 * a)) (Num (2 * b)) modelId = Num (2 * spec_cost a b modelId)"
    by (simp only: calculateCost_profile [OF m] spec_cost_double)
  show "calculateCost (Num a) (Num b) modelId = Num (spec_cost a b modelId)"
    by (rule calculateCost_profile [OF m])
next
  show "map_of ownConfigs (str ''constructor'') = None"
    by (simp add: ownConfigs_def str_def)
  show "calculateCost (Num 0) (Num 0) (str ''constructor'') = NaN"
    by (rule calculateCost_member [OF constructor_inherited])
qed

theorem calculateCost_linear_witness:
  "str ''no-such-model'' \<notin> set inheritedMembers
   \<and> calculateCost (Num (2 * 1000)) (Num (2 * 1000)) (str ''no-such-model'')
       = Num (2 * spec_cost 1000 1000 (str ''no-such-model''))
   \<and> calculateCost (Num 1000) (Num 1000) (str ''no-such-model'') = Num 0.02
   \<and> calculateCost (Num 4) (Num 0) (str ''gpt-4o'') = Num 0.00002
   \<and> calculateCost (Num 0) (Num 0) (str ''gpt-4'') = Num 0"
proof -
  have m: "str ''no-such-model'' \<notin> set inheritedMembers"
    by (simp add: inheritedMembers_def str_def)
  have a: "calculateCost (Num (2 * 1000)) (Num (2 * 1000)) (str ''no-such-model'')
       = Num (2 * spec_cost 1000 1000 (str ''no-such-model''))
     \<and> calculateCost (Num 1000) (Num 1000) (str ''no-such-model'')
       = Num (spec_cost 1000 1000 (str ''no-such-model''))"
    using m calculateCost_linear [of "str ''no-such-model''" 0 0 1000 1000] by blast
  have b: "spec_cost 1000 1000 (str ''no-such-model'') = 0.02"
    by (simp add: spec_cost_def js_eval)
  have c: "calculateCost (Num 4) (Num 0) (str ''gpt-4o'') = Num 0.00002"
    by (simp add: calculateCost_profile known_models spec_cost_def js_eval)
  have d: "calculateCost (Num 0) (Num 0) (str ''gpt-4'') = Num 0"
    by (simp add: calculateCost_profile known_models spec_cost_def)
  show ?thesis
    using m a c d by (simp only: b) simp
qed

section \<open>Model detection\<close>

lemma detectModel_lower: "detectModel (JStr t) = detectModel (JStr (toLowerCase t))"
  by (simp add: detectModel_def toLowerCase_idem)

lemma detectModel_gpt4o:
  "str_includes (toLowerCase t) (str ''gpt-4o'') \<Longrightarrow> detectModel (JStr t) = Inr (str ''gpt-4o'')"
  by (simp add: detectModel_def detectModel_markers_def)

lemma detectModel_gpt4turbo:
  "\<not> str_includes (toLowerCase t) (str ''gpt-4o'') \<Longrightarrow>
   str_includes (toLowerCase t) (str ''gpt-4-turbo'') \<or> str_includes (toLowerCase t) (str ''gpt-4 turbo'') \<Longrightarrow>
   detectModel (JStr t) = Inr (str ''gpt-4-turbo'')"
  by (simp add: detectModel_def detectModel_markers_def)

lemma detectModel_none:
  "\<not> str_includes (toLowerCase t) (str ''gpt-4o'') \<Longrightarrow>
   \<not> str_includes (toLowerCase t) (str ''gpt-4-turbo'') \<Longrightarrow>
   \<not> str_includes (toLowerCase t) (str ''gpt-4 turbo'') \<Longrightarrow>
   \<not> str_includes (toLowerCase t) (str ''gpt-4'') \<Longrightarrow>
   \<not> str_includes (toLowerCase t) (str ''gpt-3.5'') \<Longrightarrow>
   \<not> str_includes (toLowerCase t) (str ''gpt-3.5-turbo'') \<Longrightarrow>
   detectModel (JStr t) = Inr defaultModel"
  by (simp add: detectModel_def detectModel_markers_def)

lemma gpt4_in_markers:
  "sublist (str ''gpt-4'') (str ''gpt-4o'')" "sublist (str ''gpt-4'') (str ''gpt-4-turbo'')"
  "sublist (str ''gpt-4'') (str ''gpt-4 turbo'')"
  by (simp_all add: str_def sublist_Cons_right)

lemma detectModel_gpt35:
  assumes "\<not> str_includes (toLowerCase t) (str ''gpt-4'')"
    and "str_includes (toLowerCase t) (str ''gpt-3.5'')"
  shows "detectModel (JStr t) = Inr (str ''gpt-3.5-turbo'')"
proof -
  have "\<not> str_includes (toLowerCase t) m"
    if "sublist (str ''gpt-4'') m" for m
    using assms(1) that unfolding str_includes_def
    by (meson sublist_order.order.trans)
  then have "\<not> str_includes (toLowerCase t) (str ''gpt-4o'')"
    "\<not> str_includes (toLowerCase t) (str ''gpt-4-turbo'')"
    "\<not> str_includes (toLowerCase t) (str ''gpt-4 turbo'')"
    using gpt4_in_markers by blast+
  then show ?thesis
    using assms by (simp add: detectModel_def detectModel_markers_def)
qed

lemma model_ids_distinct:
  "str ''gpt-4o'' \<noteq> str ''gpt-4''" "str ''gpt-4-turbo'' \<noteq> str ''gpt-4''"
  by (simp_all add: str_def)

lemma detectModel_gpt4:
  "\<not> str_includes (toLowerCase t) (str ''gpt-4o'') \<Longrightarrow>
   \<not> str_includes (toLowerCase t) (str ''gpt-4-turbo'') \<Longrightarrow>
   \<not> str_includes (toLowerCase t) (str ''gpt-4 turbo'') \<Longrightarrow>
   str_includes (toLowerCase t) (str ''gpt-4'') \<Longrightarrow>
   detectModel (JStr t) = Inr (str ''gpt-4'')"
  by (simp add: detectModel_def detectModel_markers_def)

lemma caseVariantUnit_lower: "caseVariantUnit a b \<Longrightarrow> lowerUnit a = lowerUnit b"
  by (auto simp: caseVariantUnit_def lowerUnit_def)

lemma caseVariant_lower: "caseVariant s t \<Longrightarrow> toLowerCase s = toLowerCase t"
  unfolding caseVariant_def toLowerCase_def
  by (induction rule: list_all2_induct) (simp_all add: caseVariantUnit_lower)

lemma detectModel_caseVariant: "caseVariant s t \<Longrightarrow> detectModel (JStr s) = detectModel (JStr t)"
  by (simp add: detectModel_def caseVariant_lower)

text \<open>
  Claim C6, amended. \<open>detectModel\<close> gives the same model for a text and for the text in
  lower case, and the same model for two texts that are case variants of each other (so
  for \<open>GPT-4O\<close> and \<open>gpt-4o\<close>; \<open>GPT-4 TURBO\<close> resolves to \<open>gpt-4-turbo\<close>). The markers
  are tested in the order \<open>gpt-4o\<close>, then \<open>gpt-4-turbo\<close> and \<open>gpt-4 turbo\<close>, then
  \<open>gpt-4\<close>, then \<open>gpt-3.5\<close>, and the first that the lowered text holds decides. So a
  text that holds a marker extending the generic marker \<open>gpt-4\<close> resolves to a specific
  model, to \<open>gpt-4o\<close> when it holds \<open>gpt-4o\<close> and else to \<open>gpt-4-turbo\<close>, and never to
  \<open>gpt-4\<close>; a text that holds \<open>gpt-4\<close> and none of these markers resolves to \<open>gpt-4\<close>,
  whatever else it holds; a text that holds \<open>gpt-3.5\<close> resolves to \<open>gpt-3.5-turbo\<close> when
  it does not hold \<open>gpt-4\<close>; a text with no marker resolves to the default model.
\<close>

theorem detectModel_case_and_specificity:
  "detectModel (JStr t) = detectModel (JStr (toLowerCase t))
   \<and> (caseVariant t t' \<longrightarrow> detectModel (JStr t) = detectModel (JStr t'))
   \<and> detectModel (JStr (str ''GPT-4O'')) = detectModel (JStr (str ''gpt-4o''))
   \<and> detectModel (JStr (str ''GPT-4 TURBO'')) = Inr (str ''gpt-4-turbo'')
   \<and> (str_includes (toLowerCase t) (str ''gpt-4o'') \<longrightarrow> detectModel (JStr t) = Inr (str ''gpt-4o''))
   \<and> (\<not> str_includes (toLowerCase t) (str ''gpt-4o'')
        \<and> (str_includes (toLowerCase t) (str ''gpt-4-turbo'') \<or> str_includes (toLowerCase t) (str ''gpt-4 turbo''))
        \<longrightarrow> detectModel (JStr t) = Inr (str ''gpt-4-turbo''))
   \<and> (str_includes (toLowerCase t) (str ''gpt-4o'') \<or> str_includes (toLowerCase t) (str ''gpt-4-turbo'')
        \<or> str_includes (toLowerCase t) (str ''gpt-4 turbo'')
        \<longrightarrow> detectModel (JStr t) \<noteq> Inr (str ''gpt-4''))
   \<and> detectModel (JStr (str ''gpt-4 turbo'')) = Inr (str ''gpt-4-turbo'')
   \<and> (\<not> str_includes (toLowerCase t) (str ''gpt-4o'') \<and> \<not> str_includes (toLowerCase t) (str ''gpt-4-turbo'')
        \<and> \<not> str_includes (toLowerCase t) (str ''gpt-4 turbo'') \<and> str_includes (toLowerCase t) (str ''gpt-4'')
        \<longrightarrow> detectModel (JStr t) = Inr (str ''gpt-4''))
   \<and> (\<not> str_includes (toLowerCase t) (str ''gpt-4'') \<and> str_includes (toLowerCase t) (str ''gpt-3.5'')
        \<longrightarrow> detectModel (JStr t) = Inr (str ''gpt-3.5-turbo''))
   \<and> (\<not> str_includes (toLowerCase t) (str ''gpt-4o'') \<and> \<not> str_includes (toLowerCase t) (str ''gpt-4-turbo'')
        \<and> \<not> str_includes (toLowerCase t) (str ''gpt-4 turbo'') \<and> \<not> str_includes (toLowerCase t) (str ''gpt-4'')
        \<and> \<not> str_includes (toLowerCase t) (str ''gpt-3.5'') \<and> \<not> str_includes (toLowerCase t) (str ''gpt-3.5-turbo'')
        \<longrightarrow> detectModel (JStr t) = Inr defaultModel)"
proof (intro conjI impI)
  show "detectModel (JStr t) = detectModel (JStr (toLowerCase t))"
    by (rule detectModel_lower)
  show "detectModel (JStr (str ''GPT-4O'')) = detectModel (JStr (str ''gpt-4o''))"
    by (simp add: detect_eval)
  show "detectModel (JStr (str ''GPT-4 TURBO'')) = Inr (str ''gpt-4-turbo'')"
    by (simp add: detect_eval)
  show "detectModel (JStr (str ''gpt-4 turbo'')) = Inr (str ''gpt-4-turbo'')"
    by (simp add: detect_eval)
next
  assume "caseVariant t t'"
  then show "detectModel (JStr t) = detectModel (JStr t')"
    by (rule detectModel_caseVariant)
next
  assume "str_includes (toLowerCase t) (str ''gpt-4o'')"
  then show "detectModel (JStr t) = Inr (str ''gpt-4o'')"
    by (rule detectModel_gpt4o)
next
  assume "\<not> str_includes (toLowerCase t) (str ''gpt-4o'')
        \<and> (str_includes (toLowerCase t) (str ''gpt-4-turbo'') \<or> str_includes (toLowerCase t) (str ''gpt-4 turbo''))"
  then show "detectModel (JStr t) = Inr (str ''gpt-4-turbo'')"
    using detectModel_gpt4turbo [of t] by blast
next
  assume "str_includes (toLowerCase t) (str ''gpt-4o'') \<or> str_includes (toLowerCase t) (str ''gpt-4-turbo'')
        \<or> str_includes (toLowerCase t) (str ''gpt-4 turbo'')"
  then have "detectModel (JStr t) = Inr (str ''gpt-4o'') \<or> detectModel (JStr t) = Inr (str ''gpt-4-turbo'')"
    using detectModel_gpt4o [of t] detectModel_gpt4turbo [of t] by blast
  then show "detectModel (JStr t) \<noteq> Inr (str ''gpt-4'')"
    using model_ids_distinct by auto
next
  assume "\<not> str_includes (toLowerCase t) (str ''gpt-4o'') \<and> \<not> str_includes (toLowerCase t) (str ''gpt-4-turbo'')
        \<and> \<not> str_includes (toLowerCase t) (str ''gpt-4 turbo'') \<and> str_includes (toLowerCase t) (str ''gpt-4'')"
  then show "detectModel (JStr t) = Inr (str ''gpt-4'')"
    using detectModel_gpt4 [of t] by blast
next
  assume "\<not> str_includes (toLowerCase t) (str ''gpt-4'') \<and> str_includes (toLowerCase t) (str ''gpt-3.5'')"
  then show "detectModel (JStr t) = Inr (str ''gpt-3.5-turbo'')"
    using detectModel_gpt35 [of t] by blast
next
  assume "\<not> str_includes (toLowerCase t) (str ''gpt-4o'') \<and> \<not> str_includes (toLowerCase t) (str ''gpt-4-turbo'')
        \<and> \<not> str_includes (toLowerCase t) (str ''gpt-4 turbo'') \<and> \<not> str_includes (toLowerCase t) (str ''gpt-4'')
        \<and> \<not> str_includes (toLowerCase t) (str ''gpt-3.5'') \<and> \<not> str_includes (toLowerCase t) (str ''gpt-3.5-turbo'')"
  then show "detectModel (JStr t) = Inr defaultModel"
    using detectModel_none [of t] by blast
qed

theorem detectModel_case_and_specificity_witness:
  "caseVariant (str ''ChatGPT-4o mini, not GPT-4-TURBO'') (str ''chatgpt-4O MINI, NOT gpt-4-turbo'')
   \<and> str_includes (toLowerCase (str ''ChatGPT-4o mini, not GPT-4-TURBO'')) (str ''gpt-4o'')
   \<and> str_includes (toLowerCase (str ''ChatGPT-4o mini, not GPT-4-TURBO'')) (str ''gpt-4-turbo'')
   \<and> str_includes (toLowerCase (str ''ChatGPT-4o mini, not GPT-4-TURBO'')) (str ''gpt-4'')
   \<and> detectModel (JStr (str ''ChatGPT-4o mini, not GPT-4-TURBO'')) = Inr (str ''gpt-4o'')
   \<and> detectModel (JStr (str ''chatgpt-4O MINI, NOT gpt-4-turbo'')) = Inr (str ''gpt-4o'')
   \<and> detectModel (JStr (str ''ChatGPT-4o mini, not GPT-4-TURBO'')) \<noteq> Inr (str ''gpt-4'')
   \<and> detectModel (JStr (str ''ChatGPT-4o mini, not GPT-4-TURBO''))
       = detectModel (JStr (toLowerCase (str ''ChatGPT-4o mini, not GPT-4-TURBO'')))"
proof -
  have v: "caseVariant (str ''ChatGPT-4o mini, not GPT-4-TURBO'') (str ''chatgpt-4O MINI, NOT gpt-4-turbo'')"
    by (simp add: caseVariant_def caseVariantUnit_def str_def)
  have a: "str_includes (toLowerCase (str ''ChatGPT-4o mini, not GPT-4-TURBO'')) (str ''gpt-4o'')"
    by (simp add: detect_eval)
  have b: "str_includes (toLowerCase (str ''ChatGPT-4o mini, not GPT-4-TURBO'')) (str ''gpt-4-turbo'')"
    by (simp add: detect_eval)
  have c: "str_includes (toLowerCase (str ''ChatGPT-4o mini, not GPT-4-TURBO'')) (str ''gpt-4'')"
    by (simp add: detect_eval)
  have d: "detectModel (JStr (str ''ChatGPT-4o mini, not GPT-4-TURBO'')) = Inr (str ''gpt-4o'')
    \<and> detectModel (JStr (str ''ChatGPT-4o mini, not GPT-4-TURBO''))
        = detectModel (JStr (str ''chatgpt-4O MINI, NOT gpt-4-turbo''))
    \<and> detectModel (JStr (str ''ChatGPT-4o mini, not GPT-4-TURBO'')) \<noteq> Inr (str ''gpt-4'')
    \<and> detectModel (JStr (str ''ChatGPT-4o mini, not GPT-4-TURBO''))
        = detectModel (JStr (toLowerCase (str ''ChatGPT-4o mini, not GPT-4-TURBO'')))"
    using v a
      detectModel_case_and_specificity [of "str ''ChatGPT-4o mini, not GPT-4-TURBO''"
        "str ''chatgpt-4O MINI, NOT gpt-4-turbo''"]
    by blast
  have e: "detectModel (JStr (str ''chatgpt-4O MINI, NOT gpt-4-turbo'')) = Inr (str ''gpt-4o'')"
    using d by (elim conjE) (rule trans [OF sym])
  show ?thesis
    using v a b c d e by blast
qed

text \<open>
  The claim as stated covers every text with a generic and a specific marker: the text
  \<open>gpt-3.5-turbo gpt-4\<close> holds the specific marker \<open>gpt-3.5-turbo\<close> and the generic
  marker \<open>gpt-4\<close>, which is tested first, and resolves to the generic model.
\<close>

theorem detectModel_generic_first_counterexample:
  "str_includes (toLowerCase (str ''gpt-3.5-turbo gpt-4'')) (str ''gpt-3.5-turbo'')
   \<and> str_includes (toLowerCase (str ''gpt-3.5-turbo gpt-4'')) (str ''gpt-4'')
   \<and> detectModel (JStr (str ''gpt-3.5-turbo gpt-4'')) = Inr (str ''gpt-4'')"
  by (simp add: detect_eval)

lemma encode_non_string: "(\<forall>s. x \<noteq> JStr s) \<Longrightarrow> encode x modelId = Num 0"
  by (cases x) (simp_all add: encode_def)

lemma encodeChat_non_array: "(\<forall>ms. x \<noteq> JArr ms) \<Longrightarrow> encodeChat x modelId = Num 0"
  by (cases x) (simp_all add: encodeChat_def)

lemma encodeChat_skips_non_object:
  "\<not> truthy message \<or> \<not> typeof_object message \<Longrightarrow>
   encodeChat_loop modelId (message # rest) acc = encodeChat_loop modelId rest acc"
  by simp

text \<open>
  Claim C7. On a value that is not a string \<open>encode\<close> returns 0 and \<open>encodeChat\<close>
  counts nothing for it, but \<open>detectModel\<close> does not return a model id: on \<open>null\<close>,
  \<open>undefined\<close> and a number it throws a TypeError.
\<close>

theorem detectModel_throws_on_non_string:
  "detectModel JNull = Inl TypeError \<and> detectModel JUndefined = Inl TypeError
   \<and> detectModel (JNum 5) = Inl TypeError"
  by (simp add: detectModel_def)

section \<open>The chat estimate\<close>

lemma js_add_assoc: "js_add (js_add a b) c = js_add a (js_add b (c :: nat jsnum))"
  by (cases a; cases b; cases c) simp_all

lemma js_add_commute: "js_add a b = js_add b (a :: nat jsnum)"
  by (cases a; cases b) simp_all

lemma js_add_0 [simp]: "js_add a (Num 0) = (a :: nat jsnum)" "js_add (Num 0) a = a"
  by (cases a; simp)+

lemma js_add_NaN [simp]: "js_add a NaN = NaN" "js_add NaN a = NaN"
  by (cases a; simp)+

lemma js_sum_simps [simp]: "js_sum [] = Num 0" "js_sum (x # xs) = js_add x (js_sum xs)"
  by (simp_all add: js_sum_def)

lemma js_sum_append: "js_sum (xs @ ys) = js_add (js_sum xs) (js_sum ys)"
  by (induction xs) (simp_all add: js_add_assoc)

lemma js_sum_Num: "js_sum (map Num xs) = Num (sum_list xs)"
  by (induction xs) simp_all

lemma key_neq: "str ''role'' \<noteq> str ''content''" "str ''role'' \<noteq> str ''name''"
  "str ''content'' \<noteq> str ''name''" "str ''content'' \<noteq> str ''role''"
  "str ''name'' \<noteq> str ''role''" "str ''name'' \<noteq> str ''content''"
  by (simp_all add: str_def)

lemma getProp_toObject:
  "getProp (toObject m) (str ''role'') = JStr (chat_role m)"
  "getProp (toObject m) (str ''content'') = JStr (chat_content m)"
  "getProp (toObject m) (str ''name'') = (case chat_name m of Some n \<Rightarrow> JStr n | None \<Rightarrow> JUndefined)"
  by (simp_all add: toObject_def key_neq split: option.split)

lemma encodeChat_step:
  "encodeChat_loop modelId (toObject m # rest) acc
     = encodeChat_loop modelId rest (js_add acc (messageTokens m modelId))"
proof -
  have obj: "truthy (toObject m)" "typeof_object (toObject m)"
    by (simp_all add: toObject_def)
  show ?thesis
    by (cases "chat_name m")
      (simp_all add: obj getProp_toObject messageTokens_def encode_empty Let_def js_add_assoc)
qed

lemma encodeChat_loop_sum:
  "encodeChat_loop modelId (map toObject ms) acc
     = js_add acc (js_sum (map (\<lambda>m. messageTokens m modelId) ms))"
proof (induction ms arbitrary: acc)
  case Nil
  show ?case by simp
next
  case (Cons m ms)
  have "encodeChat_loop modelId (map toObject (m # ms)) acc
      = encodeChat_loop modelId (map toObject ms) (js_add acc (messageTokens m modelId))"
    by (simp only: list.map encodeChat_step)
  then show ?case by (simp add: Cons.IH js_add_assoc)
qed

lemma messageTokens_named:
  "chat_name m \<noteq> Some [] \<Longrightarrow> messageTokens m modelId = spec_messageTokens m modelId"
  by (cases "chat_name m") (simp_all add: messageTokens_def spec_messageTokens_def)

text \<open>
  Claim C4, amended. For messages with a role, a content and an optional name,
  \<open>encodeChat\<close> is 4 for the exchange, plus for each message 4 and the estimates of its
  role and of its content and, when the name is present and not empty, the estimate of the
  name plus 1, plus 2 for the priming of the completion. It agrees with the formula of
  the specification on every list of messages none of which has an empty name. (The sums
  are sums of JavaScript numbers: they are NaN where an estimate is.)
\<close>

theorem encodeChat_formula:
  "encodeChat (JArr (map toObject ms)) modelId
     = js_add (js_add (Num 4) (js_sum (map (\<lambda>m. messageTokens m modelId) ms))) (Num 2)
   \<and> ((\<forall>m \<in> set ms. chat_name m \<noteq> Some []) \<longrightarrow>
        encodeChat (JArr (map toObject ms)) modelId = spec_estimateChat ms modelId)"
proof (intro conjI impI)
  show eq: "encodeChat (JArr (map toObject ms)) modelId
      = js_add (js_add (Num 4) (js_sum (map (\<lambda>m. messageTokens m modelId) ms))) (Num 2)"
    by (simp add: encodeChat_def encodeChat_loop_sum)
  assume named: "\<forall>m \<in> set ms. chat_name m \<noteq> Some []"
  then have "js_sum (map (\<lambda>m. messageTokens m modelId) ms)
      = js_sum (map (\<lambda>m. spec_messageTokens m modelId) ms)"
    by (induction ms) (simp_all add: messageTokens_named)
  then show "encodeChat (JArr (map toObject ms)) modelId = spec_estimateChat ms modelId"
    by (simp only: eq spec_estimateChat_def)
qed

theorem encodeChat_formula_witness:
  "encodeChat (JArr (map toObject
      [\<lparr>chat_role = str ''user'', chat_content = str ''Hello, world!'', chat_name = Some (str ''bob'')\<rparr>,
       \<lparr>chat_role = str ''assistant'', chat_content = str ''hi'', chat_name = None\<rparr>])) (str ''gpt-4o'') = Num 28
   \<and> spec_estimateChat
      [\<lparr>chat_role = str ''user'', chat_content = str ''Hello, world!'', chat_name = Some (str ''bob'')\<rparr>,
       \<lparr>chat_role = str ''assistant'', chat_content = str ''hi'', chat_name = None\<rparr>] (str ''gpt-4o'') = Num 28"
proof -
  let ?ms = "[\<lparr>chat_role = str ''user'', chat_content = str ''Hello, world!'', chat_name = Some (str ''bob'')\<rparr>,
       \<lparr>chat_role = str ''assistant'', chat_content = str ''hi'', chat_name = None\<rparr>]"
  have named: "\<forall>m \<in> set ?ms. chat_name m \<noteq> Some []"
    by (simp add: str_def)
  have val: "spec_estimateChat ?ms (str ''gpt-4o'') = Num 28"
    by (simp add: spec_estimateChat_def spec_messageTokens_def encode_eval)
  have eq: "encodeChat (JArr (map toObject ?ms)) (str ''gpt-4o'') = spec_estimateChat ?ms (str ''gpt-4o'')"
    using named encodeChat_formula [of ?ms "str ''gpt-4o''"] by blast
  show ?thesis
    by (simp only: eq val)
qed

text \<open>
  A message whose name is the empty string: the field is present, and the code adds
  nothing for it, where the formula of the specification adds 1.
\<close>

theorem encodeChat_empty_name_counterexample:
  "encodeChat (JArr [JObj [(str ''role'', JStr (str ''user'')), (str ''content'', JStr (str ''hi'')),
                          (str ''name'', JStr (str ''''))]]) (str ''gpt-4o'') = Num 14
   \<and> spec_estimateChat [\<lparr>chat_role = str ''user'', chat_content = str ''hi'', chat_name = Some (str '''')\<rparr>]
        (str ''gpt-4o'') = Num 15"
  by (simp add: encodeChat_def spec_estimateChat_def spec_messageTokens_def Let_def encode_eval)

section \<open>Monotonicity of the estimate\<close>

lemma replace_ws_append:
  "v \<noteq> [] \<Longrightarrow> \<not> isSpace (last v) \<Longrightarrow> replace_ws (v @ w) = replace_ws v @ replace_ws w"
proof (induction v rule: replace_ws.induct)
  case 1
  then show ?case by simp
next
  case (2 c cs)
  show ?case
  proof (cases "isSpace c")
    case True
    with 2(3,4) have cs: "cs \<noteq> []" "\<not> isSpace (last cs)"
      by (auto split: if_splits)
    then have ex: "last cs \<in> set cs" by simp
    have dw: "dropWhile isSpace (cs @ w) = dropWhile isSpace cs @ w"
      using ex cs(2) by (meson dropWhile_append1)
    have ne: "dropWhile isSpace cs \<noteq> []"
      using ex cs(2) by (auto simp: dropWhile_eq_Nil_conv)
    have "last (dropWhile isSpace cs) = last cs"
      using ne by (metis last_appendR takeWhile_dropWhile_id)
    then have "replace_ws (dropWhile isSpace cs @ w) = replace_ws (dropWhile isSpace cs) @ replace_ws w"
      using 2(1) [OF True ne] cs(2) by simp
    then show ?thesis using True dw by simp
  next
    case False
    show ?thesis
    proof (cases "cs = []")
      case True
      then show ?thesis using False by simp
    next
      case ne: False
      then have "\<not> isSpace (last cs)" using 2(4) by simp
      then show ?thesis using 2(2) [OF False ne] False by simp
    qed
  qed
qed

lemma replace_ws_spaces_snoc:
  "\<forall>x \<in> set sp. isSpace x \<Longrightarrow> \<not> isSpace c \<Longrightarrow>
   replace_ws (sp @ [c]) = (if sp = [] then [c] else [32, c])"
  by (cases sp) (auto simp: dropWhile_append)

lemma trim_split:
  "\<exists>sp. dropWhile isSpace t = trim t @ sp \<and> (\<forall>x \<in> set sp. isSpace x)"
proof -
  let ?u = "dropWhile isSpace t"
  have "?u = rev (dropWhile isSpace (rev ?u)) @ rev (takeWhile isSpace (rev ?u))"
    by (metis rev_append rev_rev_ident takeWhile_dropWhile_id)
  moreover have "\<forall>x \<in> set (rev (takeWhile isSpace (rev ?u))). isSpace x"
    by (auto dest: set_takeWhileD)
  ultimately show ?thesis unfolding trim_def by blast
qed

lemma trim_last: "trim t \<noteq> [] \<Longrightarrow> \<not> isSpace (last (trim t))"
  unfolding trim_def by (metis hd_dropWhile hd_rev rev_is_Nil_conv rev_rev_ident)

lemma trim_snoc: "\<not> isSpace c \<Longrightarrow> trim (t @ [c]) = dropWhile isSpace t @ [c]"
  unfolding trim_def by (simp add: dropWhile_append)

lemma trim_empty_iff: "trim t = [] \<longleftrightarrow> dropWhile isSpace t = []"
proof
  assume "trim t = []"
  then have "dropWhile isSpace (rev (dropWhile isSpace t)) = []"
    unfolding trim_def by (simp only: rev_is_Nil_conv)
  then have "\<forall>x \<in> set (rev (dropWhile isSpace t)). isSpace x"
    by (simp only: dropWhile_eq_Nil_conv)
  then have all: "\<forall>x \<in> set (dropWhile isSpace t). isSpace x"
    by (simp only: set_rev)
  show "dropWhile isSpace t = []"
  proof (rule ccontr)
    assume ne: "dropWhile isSpace t \<noteq> []"
    then have "\<not> isSpace (hd (dropWhile isSpace t))" by (rule hd_dropWhile)
    moreover have "hd (dropWhile isSpace t) \<in> set (dropWhile isSpace t)" using ne by simp
    ultimately show False using all by blast
  qed
next
  assume "dropWhile isSpace t = []"
  then show "trim t = []" by (simp only: trim_def rev.simps dropWhile.simps)
qed

lemma spec_normalize_snoc:
  assumes "\<not> isSpace c"
  shows "\<exists>sep. spec_normalize (t @ [c]) = spec_normalize t @ sep @ [c]"
proof -
  obtain sp where u: "dropWhile isSpace t = trim t @ sp" and sp: "\<forall>x \<in> set sp. isSpace x"
    using trim_split by blast
  show ?thesis
  proof (cases "trim t = []")
    case True
    then have "dropWhile isSpace t = []" by (simp only: trim_empty_iff)
    then have "trim (t @ [c]) = [c]"
      using trim_snoc [OF assms, of t] by (simp only: append_Nil)
    then have "spec_normalize (t @ [c]) = [c]"
      using assms by (simp add: spec_normalize_def)
    then show ?thesis using True by (simp add: spec_normalize_def)
  next
    case False
    have "spec_normalize (t @ [c]) = replace_ws (trim t @ (sp @ [c]))"
      using assms u by (simp add: spec_normalize_def trim_snoc)
    also have "\<dots> = replace_ws (trim t) @ replace_ws (sp @ [c])"
      by (rule replace_ws_append [OF False trim_last [OF False]])
    also have "\<dots> = spec_normalize t @ (if sp = [] then [] else [32]) @ [c]"
      using sp assms by (simp add: replace_ws_spaces_snoc spec_normalize_def)
    finally show ?thesis by blast
  qed
qed

lemma word_starts_append_le: "word_starts inw x \<le> word_starts inw (x @ y)"
  by (induction x arbitrary: inw) auto

lemma avgCharsPerToken_4: "avgCharsPerToken (spec_profile modelId) = 4"
proof (cases "map_of ownConfigs modelId")
  case None
  then show ?thesis by (simp add: spec_profile_def gpt4o_config_def)
next
  case (Some cfg)
  then have "(modelId, cfg) \<in> set ownConfigs"
    by (rule map_of_SomeD)
  then have "cfg \<in> {gpt4_config, gpt4o_config, gpt4turbo_config, gpt35turbo_config}"
    by (auto simp: ownConfigs_def)
  then show ?thesis
    using Some
    by (auto simp: spec_profile_def gpt4_config_def gpt4o_config_def gpt4turbo_config_def
        gpt35turbo_config_def)
qed

lemma spec_estimate_monotone:
  "\<not> isSpace c \<Longrightarrow> spec_estimate t modelId \<le> spec_estimate (t @ [c]) modelId"
proof -
  assume c: "\<not> isSpace c"
  then obtain sep where n: "spec_normalize (t @ [c]) = spec_normalize t @ sep @ [c]"
    using spec_normalize_snoc by blast
  have avg: "avgCharsPerToken (spec_profile modelId) = 4"
    by (rule avgCharsPerToken_4)
  have L: "length (spec_normalize t) \<le> length (spec_normalize (t @ [c]))"
    by (simp add: n)
  have W: "spec_wordCount (spec_normalize t) \<le> spec_wordCount (spec_normalize (t @ [c]))"
    unfolding spec_wordCount_def n by (rule word_starts_append_le)
  have S: "spec_specialCount (spec_normalize t) \<le> spec_specialCount (spec_normalize (t @ [c]))"
    by (simp add: spec_specialCount_def n)
  have cL: "Math_ceil (of_nat (length (spec_normalize t)) / avgCharsPerToken (spec_profile modelId))
      \<le> Math_ceil (of_nat (length (spec_normalize (t @ [c]))) / avgCharsPerToken (spec_profile modelId))"
    using L by (intro Math_ceil_mono) (simp add: avg divide_right_mono)
  have cW: "Math_ceil (of_nat (spec_wordCount (spec_normalize t)) * 1.3)
      \<le> Math_ceil (of_nat (spec_wordCount (spec_normalize (t @ [c]))) * 1.3)"
    using W by (intro Math_ceil_mono) simp
  have cS: "Math_ceil (of_nat (spec_specialCount (spec_normalize t)) * 0.5)
      \<le> Math_ceil (of_nat (spec_specialCount (spec_normalize (t @ [c]))) * 0.5)"
    using S by (intro Math_ceil_mono) simp
  show ?thesis
    unfolding spec_estimate_def Let_def using cL cW cS by (intro max.mono add_mono)
qed

text \<open>
  Claim C9. For every model id that is no inherited member name, appending a code unit
  that is not white space to a text never lowers its estimate. For the model id
  \<open>constructor\<close> the estimate of the empty text is 0 and that of the text \<open>a\<close> is NaN,
  which is not greater or equal.
\<close>

theorem encode_monotone:
  "(modelId \<notin> set inheritedMembers \<and> \<not> isSpace c \<longrightarrow>
      js_le (encode (JStr t) modelId) (encode (JStr (t @ [c])) modelId))
   \<and> \<not> isSpace 97
   \<and> encode (JStr []) (str ''constructor'') = Num 0
   \<and> encode (JStr ([] @ [97])) (str ''constructor'') = NaN
   \<and> \<not> js_le (encode (JStr []) (str ''constructor'')) (encode (JStr ([] @ [97])) (str ''constructor''))"
proof (intro conjI impI)
  assume "modelId \<notin> set inheritedMembers \<and> \<not> isSpace c"
  then show "js_le (encode (JStr t) modelId) (encode (JStr (t @ [c])) modelId)"
    by (simp add: encode_spec_estimate spec_estimate_monotone)
next
  show "\<not> isSpace 97"
    by (simp add: isSpace_def)
  show "encode (JStr []) (str ''constructor'') = Num 0"
    by (rule encode_empty)
  show nan: "encode (JStr ([] @ [97])) (str ''constructor'') = NaN"
    by (rule encode_member [OF constructor_inherited]) simp
  show "\<not> js_le (encode (JStr []) (str ''constructor'')) (encode (JStr ([] @ [97])) (str ''constructor''))"
    by (simp only: nan encode_empty js_le.simps) simp
qed

theorem encode_monotone_witness:
  "str ''gpt-4o'' \<notin> set inheritedMembers \<and> \<not> isSpace 33
   \<and> encode (JStr (str ''Hello, world'')) (str ''gpt-4o'') = Num 4
   \<and> encode (JStr (str ''Hello, world'' @ [33])) (str ''gpt-4o'') = Num 4
   \<and> js_le (encode (JStr (str ''Hello, world'')) (str ''gpt-4o''))
        (encode (JStr (str ''Hello, world'' @ [33])) (str ''gpt-4o''))"
proof -
  have m: "str ''gpt-4o'' \<notin> set inheritedMembers" by (rule known_models)
  have a: "\<not> isSpace 33" by (simp add: isSpace_def)
  have b: "encode (JStr (str ''Hello, world'')) (str ''gpt-4o'') = Num 4"
    by (simp add: encode_eval)
  have c: "encode (JStr (str ''Hello, world'' @ [33])) (str ''gpt-4o'') = Num 4"
    by (simp add: encode_eval)
  show ?thesis
    using m a b c encode_monotone [of "str ''gpt-4o''" 33 "str ''Hello, world''"] by blast
qed

section \<open>Ingesting messages\<close>

lemma forEach_Cons:
  "processMessages_forEach c h (m # rest) =
     (if alreadyRecorded c m then processMessages_forEach c h rest
      else processMessages_forEach (record_message c m) True rest)"
  by (simp add: alreadyRecorded_def record_message_def Let_def)

declare processMessages_forEach.simps(2) [simp del]

lemma forEach_flag_True: "snd (processMessages_forEach c True ms) = True"
  by (induction ms arbitrary: c) (simp_all add: forEach_Cons)

lemma forEach_unchanged:
  "snd (processMessages_forEach c False ms) = False \<Longrightarrow> processMessages_forEach c False ms = (c, False)"
proof (induction ms)
  case Nil
  show ?case by simp
next
  case (Cons m ms)
  show ?case
  proof (cases "alreadyRecorded c m")
    case True
    then show ?thesis using Cons by (simp add: forEach_Cons)
  next
    case False
    then have "snd (processMessages_forEach c False (m # ms)) = True"
      by (simp add: forEach_Cons forEach_flag_True)
    then show ?thesis using Cons.prems by simp
  qed
qed

lemma forEach_append:
  "processMessages_forEach c h (ms1 @ ms2) =
     processMessages_forEach (fst (processMessages_forEach c h ms1))
       (snd (processMessages_forEach c h ms1)) ms2"
  by (induction ms1 arbitrary: c h) (simp_all add: forEach_Cons)

lemma record_message_fields:
  "model (record_message c m) = model c"
  "convId (record_message c m) = convId c"
  "urlId (record_message c m) = urlId c"
  "startTime (record_message c m) = startTime c"
  "totalCost (record_message c m) = totalCost c"
  "messages (record_message c m) = messages c @ [m]"
  "totalInputTokens (record_message c m)
     = js_add (totalInputTokens c) (if role m = str ''user'' then encode (JStr (content m)) (model c) else Num 0)"
  "totalOutputTokens (record_message c m)
     = js_add (totalOutputTokens c) (if role m = str ''assistant'' then encode (JStr (content m)) (model c) else Num 0)"
  by (simp_all add: record_message_def Let_def str_def)

lemma forEach_cost:
  "processMessages_forEach (c\<lparr>totalCost := x\<rparr>) h ms
     = (fst (processMessages_forEach c h ms)\<lparr>totalCost := x\<rparr>, snd (processMessages_forEach c h ms))"
proof (induction ms arbitrary: c h)
  case Nil
  show ?case by simp
next
  case (Cons m ms)
  have r: "alreadyRecorded (c\<lparr>totalCost := x\<rparr>) m = alreadyRecorded c m"
    by (simp add: alreadyRecorded_def)
  have u: "record_message (c\<lparr>totalCost := x\<rparr>) m = (record_message c m)\<lparr>totalCost := x\<rparr>"
    by (simp add: record_message_def Let_def)
  show ?case
    by (simp add: forEach_Cons r u Cons.IH)
qed

lemma forEach_model: "model (fst (processMessages_forEach c h ms)) = model c"
  by (induction ms arbitrary: c h)
    (simp_all add: forEach_Cons record_message_fields)

lemma forEach_totalCost: "totalCost (fst (processMessages_forEach c h ms)) = totalCost c"
  by (induction ms arbitrary: c h)
    (simp_all add: forEach_Cons record_message_fields)

lemma forEach_flag_mono: "h \<Longrightarrow> snd (processMessages_forEach c h ms)"
  using forEach_flag_True [of c ms] by simp

lemma forEach_flag_or:
  "snd (processMessages_forEach c h ms) = (h \<or> snd (processMessages_forEach c False ms))"
  by (cases h) (simp_all add: forEach_flag_True)

lemma forEach_fst_flag:
  "fst (processMessages_forEach c h ms) = fst (processMessages_forEach c False ms)"
  by (induction ms arbitrary: c h) (simp_all add: forEach_Cons)

lemma processMessages_single_new:
  "\<not> alreadyRecorded c m \<Longrightarrow>
   processMessages c [m] =
     ((record_message c m)\<lparr>totalCost :=
         calculateCost (totalInputTokens (record_message c m)) (totalOutputTokens (record_message c m))
           (model c)\<rparr>, True)"
  by (simp add: processMessages_def forEach_Cons record_message_fields)

lemma processMessages_single_old:
  "alreadyRecorded c m \<Longrightarrow> processMessages c [m] = (c, False)"
  by (simp add: processMessages_def forEach_Cons)

lemma processMessages_unchanged:
  "snd (processMessages c ms) = False \<Longrightarrow> processMessages c ms = (c, False)"
proof -
  assume a: "snd (processMessages c ms) = False"
  have "snd (processMessages_forEach c False ms) = False"
  proof (rule ccontr)
    assume "snd (processMessages_forEach c False ms) \<noteq> False"
    then have "snd (processMessages c ms) = True"
      by (simp add: processMessages_def split_beta)
    then show False using a by simp
  qed
  then have "processMessages_forEach c False ms = (c, False)"
    by (rule forEach_unchanged)
  then show ?thesis by (simp add: processMessages_def)
qed

lemma alreadyRecorded_anywhere:
  "messages c = xs @ e # ys \<Longrightarrow> role e = role m \<Longrightarrow> content e = content m \<Longrightarrow> alreadyRecorded c m"
  by (simp add: alreadyRecorded_def list_ex_iff)

lemma alreadyRecorded_after:
  "alreadyRecorded ((record_message c m)\<lparr>totalCost := x\<rparr>) m"
  by (simp add: alreadyRecorded_def list_ex_iff record_message_fields)

text \<open>
  Claim C2, amended. For a conversation and a message that the conversation has not
  recorded yet (no recorded message has its role and content), ingesting the message twice
  reports a change the first time and none the second time, and the second call returns the
  conversation as the first left it; the estimate of the message is added to the count
  of its role once, and to no count when the role is neither user nor assistant. A
  candidate is skipped when a message with its role and content stands anywhere in the
  recorded sequence. Whenever an ingest reports no change, the conversation it returns is
  the one it was given, cost included.
\<close>

theorem processMessages_dedup:
  assumes "\<not> alreadyRecorded c m"
  shows "snd (processMessages c [m]) = True
    \<and> processMessages (fst (processMessages c [m])) [m] = (fst (processMessages c [m]), False)
    \<and> totalInputTokens (fst (processMessages c [m]))
        = js_add (totalInputTokens c) (if role m = str ''user'' then encode (JStr (content m)) (model c) else Num 0)
    \<and> totalOutputTokens (fst (processMessages c [m]))
        = js_add (totalOutputTokens c) (if role m = str ''assistant'' then encode (JStr (content m)) (model c) else Num 0)
    \<and> (messages c2 = xs @ e # ys \<and> role e = role m2 \<and> content e = content m2
         \<longrightarrow> processMessages c2 [m2] = (c2, False))
    \<and> (snd (processMessages c3 ms) = False \<longrightarrow> fst (processMessages c3 ms) = c3)"
proof (intro conjI impI)
  note first = processMessages_single_new [OF assms]
  show "snd (processMessages c [m]) = True"
    by (simp add: first)
  show "processMessages (fst (processMessages c [m])) [m] = (fst (processMessages c [m]), False)"
    unfolding first fst_conv by (rule processMessages_single_old [OF alreadyRecorded_after])
  show "totalInputTokens (fst (processMessages c [m]))
      = js_add (totalInputTokens c) (if role m = str ''user'' then encode (JStr (content m)) (model c) else Num 0)"
    by (simp add: first record_message_fields)
  show "totalOutputTokens (fst (processMessages c [m]))
      = js_add (totalOutputTokens c) (if role m = str ''assistant'' then encode (JStr (content m)) (model c) else Num 0)"
    by (simp add: first record_message_fields)
next
  assume "messages c2 = xs @ e # ys \<and> role e = role m2 \<and> content e = content m2"
  then have "alreadyRecorded c2 m2"
    using alreadyRecorded_anywhere by blast
  then show "processMessages c2 [m2] = (c2, False)"
    by (rule processMessages_single_old)
next
  assume "snd (processMessages c3 ms) = False"
  then show "fst (processMessages c3 ms) = c3"
    by (simp add: processMessages_unchanged)
qed

lemmas conv_eval = processMessages_def forEach_Cons record_message_def alreadyRecorded_def
  calculateCost_profile spec_cost_def createNewConversation_def hello_def reply_def encode_eval

theorem processMessages_dedup_witness:
  "\<not> alreadyRecorded (createNewConversation (str ''conv_1'') 0) hello
   \<and> processMessages (createNewConversation (str ''conv_1'') 0) [hello]
       = (\<lparr>convId = str ''conv_1'', urlId = None, messages = [hello], totalInputTokens = Num 4,
           totalOutputTokens = Num 0, totalCost = Num 0.00002, model = str ''gpt-4o'', startTime = 0\<rparr>, True)
   \<and> processMessages (fst (processMessages (createNewConversation (str ''conv_1'') 0) [hello])) [hello]
       = (fst (processMessages (createNewConversation (str ''conv_1'') 0) [hello]), False)"
proof -
  have a: "\<not> alreadyRecorded (createNewConversation (str ''conv_1'') 0) hello"
    by (simp add: alreadyRecorded_def createNewConversation_def)
  have b: "processMessages (createNewConversation (str ''conv_1'') 0) [hello]
       = (\<lparr>convId = str ''conv_1'', urlId = None, messages = [hello], totalInputTokens = Num 4,
           totalOutputTokens = Num 0, totalCost = Num 0.00002, model = str ''gpt-4o'', startTime = 0\<rparr>, True)"
    by (simp add: conv_eval)
  show ?thesis
    using a b processMessages_dedup [OF a] by blast
qed

text \<open>
  The claim as stated covers every conversation and every message: in a conversation
  that already holds the message, here as the second of two recorded messages, the
  first of the two calls reports no change.
\<close>

theorem processMessages_recorded_counterexample:
  "snd (processMessages
      \<lparr>convId = str ''conv_1'', urlId = None, messages = [reply, hello], totalInputTokens = Num 4,
       totalOutputTokens = Num 9, totalCost = Num 0.000155, model = str ''gpt-4o'', startTime = 0\<rparr>
      [hello]) = False"
  by (simp add: conv_eval)

lemma forEach_messages_subseq:
  "\<exists>new. messages (fst (processMessages_forEach c h ms)) = messages c @ new \<and> subseq new ms"
proof (induction ms arbitrary: c h)
  case Nil
  show ?case by simp
next
  case (Cons m ms)
  show ?case
  proof (cases "alreadyRecorded c m")
    case True
    obtain new where "messages (fst (processMessages_forEach c h ms)) = messages c @ new" "subseq new ms"
      using Cons.IH by blast
    then show ?thesis
      using True by (auto simp: forEach_Cons)
  next
    case False
    obtain new where n: "messages (fst (processMessages_forEach (record_message c m) True ms))
        = messages (record_message c m) @ new" "subseq new ms"
      using Cons.IH by blast
    have "messages (fst (processMessages_forEach c h (m # ms))) = messages c @ (m # new)"
      using False n(1) by (simp add: forEach_Cons record_message_fields)
    moreover have "subseq (m # new) (m # ms)"
      using n(2) by simp
    ultimately show ?thesis by blast
  qed
qed

lemma processMessages_fst:
  "fst (processMessages c ms) =
     (if snd (processMessages_forEach c False ms)
      then (fst (processMessages_forEach c False ms))\<lparr>totalCost :=
             calculateCost (totalInputTokens (fst (processMessages_forEach c False ms)))
               (totalOutputTokens (fst (processMessages_forEach c False ms))) (model c)\<rparr>
      else c)"
proof (cases "snd (processMessages_forEach c False ms)")
  case True
  then show ?thesis by (simp add: processMessages_def split_beta forEach_model)
next
  case False
  then have "processMessages_forEach c False ms = (c, False)"
    using forEach_unchanged by simp
  then show ?thesis by (simp add: processMessages_def)
qed

lemma processMessages_snd: "snd (processMessages c ms) = snd (processMessages_forEach c False ms)"
  by (simp add: processMessages_def split_beta)

lemma processMessages_messages:
  "messages (fst (processMessages c ms)) = messages (fst (processMessages_forEach c False ms))"
proof (cases "snd (processMessages_forEach c False ms)")
  case True
  then show ?thesis by (simp add: processMessages_fst)
next
  case False
  then have "processMessages_forEach c False ms = (c, False)"
    using forEach_unchanged by simp
  then show ?thesis by (simp add: processMessages_fst)
qed

lemma processMessages_append:
  "fst (processMessages c (ms1 @ ms2)) = fst (processMessages (fst (processMessages c ms1)) ms2)"
  and processMessages_append_changed:
  "snd (processMessages c (ms1 @ ms2))
     = (snd (processMessages c ms1) \<or> snd (processMessages (fst (processMessages c ms1)) ms2))"
proof -
  define c1 where "c1 = fst (processMessages_forEach c False ms1)"
  define h1 where "h1 = snd (processMessages_forEach c False ms1)"
  define c2 where "c2 = fst (processMessages_forEach c1 False ms2)"
  define h2 where "h2 = snd (processMessages_forEach c1 False ms2)"
  define p1 where "p1 = fst (processMessages c ms1)"
  define x1 where "x1 = calculateCost (totalInputTokens c1) (totalOutputTokens c1) (model c)"
  have "processMessages_forEach c False (ms1 @ ms2) = processMessages_forEach c1 h1 ms2"
    unfolding c1_def h1_def by (rule forEach_append)
  moreover have "fst (processMessages_forEach c1 h1 ms2) = c2"
    unfolding c2_def by (rule forEach_fst_flag)
  moreover have "snd (processMessages_forEach c1 h1 ms2) = (h1 \<or> h2)"
    unfolding h2_def by (rule forEach_flag_or)
  ultimately have batch: "processMessages_forEach c False (ms1 @ ms2) = (c2, h1 \<or> h2)"
    by (simp add: prod_eq_iff)
  have m1: "model c1 = model c" unfolding c1_def by (rule forEach_model)
  have m2: "model c2 = model c" unfolding c2_def using m1 by (simp add: forEach_model)
  have keep1: "\<not> h1 \<Longrightarrow> c1 = c"
    unfolding c1_def h1_def using forEach_unchanged [of c ms1] by simp
  have keep2: "\<not> h2 \<Longrightarrow> c2 = c1"
    unfolding c2_def h2_def using forEach_unchanged [of c1 ms2] by simp
  have P1: "p1 = (if h1 then c1\<lparr>totalCost := x1\<rparr> else c)"
    unfolding p1_def c1_def h1_def x1_def by (rule processMessages_fst)
  have mp: "model p1 = model c"
    unfolding P1 using m1 by simp
  have step: "processMessages_forEach p1 False ms2 = (if h1 then c2\<lparr>totalCost := x1\<rparr> else c2, h2)"
  proof (cases h1)
    case True
    then show ?thesis
      unfolding P1 by (simp add: forEach_cost c2_def h2_def)
  next
    case False
    then show ?thesis
      unfolding P1 using keep1 by (simp add: c2_def h2_def)
  qed
  have B: "fst (processMessages c (ms1 @ ms2))
      = (if h1 \<or> h2
         then c2\<lparr>totalCost := calculateCost (totalInputTokens c2) (totalOutputTokens c2) (model c)\<rparr>
         else c)"
    by (simp add: processMessages_fst [of c "ms1 @ ms2"] batch)
  have S: "fst (processMessages p1 ms2)
      = (if h2
         then c2\<lparr>totalCost := calculateCost (totalInputTokens c2) (totalOutputTokens c2) (model c)\<rparr>
         else p1)"
    by (simp add: processMessages_fst [of p1 ms2] step mp)
  have "fst (processMessages c (ms1 @ ms2)) = fst (processMessages p1 ms2)"
  proof (cases h2)
    case True
    then show ?thesis by (simp add: B S)
  next
    case False
    then show ?thesis
      unfolding B S using keep2 by (simp add: P1 x1_def)
  qed
  then show "fst (processMessages c (ms1 @ ms2)) = fst (processMessages (fst (processMessages c ms1)) ms2)"
    by (simp only: p1_def)
  have "snd (processMessages c (ms1 @ ms2)) = (h1 \<or> h2)"
    by (simp add: processMessages_snd batch)
  moreover have "snd (processMessages c ms1) = h1"
    by (simp add: processMessages_snd h1_def)
  moreover have "snd (processMessages p1 ms2) = h2"
    by (simp add: processMessages_snd step)
  ultimately show "snd (processMessages c (ms1 @ ms2))
     = (snd (processMessages c ms1) \<or> snd (processMessages (fst (processMessages c ms1)) ms2))"
    by (simp only: p1_def)
qed

text \<open>
  Claim C8, amended. Within one ingest the candidates are processed in the order supplied,
  and each is judged against the recorded sequence as the candidates before it have left
  it: ingesting a batch is ingesting its first part and then the rest, the change flag
  being the disjunction; the messages added stand behind the recorded ones in the order
  supplied; and of two copies of a message not yet recorded, in one batch, only the first
  is recorded and counted.
\<close>

theorem processMessages_incremental:
  "fst (processMessages c (ms1 @ ms2)) = fst (processMessages (fst (processMessages c ms1)) ms2)
   \<and> snd (processMessages c (ms1 @ ms2))
       = (snd (processMessages c ms1) \<or> snd (processMessages (fst (processMessages c ms1)) ms2))
   \<and> (\<exists>new. messages (fst (processMessages c ms)) = messages c @ new \<and> subseq new ms)
   \<and> (\<not> alreadyRecorded c m \<longrightarrow>
        messages (fst (processMessages c [m, m])) = messages c @ [m]
        \<and> totalInputTokens (fst (processMessages c [m, m])) = totalInputTokens (fst (processMessages c [m]))
        \<and> totalOutputTokens (fst (processMessages c [m, m])) = totalOutputTokens (fst (processMessages c [m])))"
proof (intro conjI impI)
  show "fst (processMessages c (ms1 @ ms2)) = fst (processMessages (fst (processMessages c ms1)) ms2)"
    by (rule processMessages_append)
  show "snd (processMessages c (ms1 @ ms2))
       = (snd (processMessages c ms1) \<or> snd (processMessages (fst (processMessages c ms1)) ms2))"
    by (rule processMessages_append_changed)
  show "\<exists>new. messages (fst (processMessages c ms)) = messages c @ new \<and> subseq new ms"
    using forEach_messages_subseq [of c False ms] by (simp only: processMessages_messages)
next
  assume new: "\<not> alreadyRecorded c m"
  have twice: "fst (processMessages c [m, m]) = fst (processMessages c [m])"
  proof -
    have "fst (processMessages c ([m] @ [m])) = fst (processMessages (fst (processMessages c [m])) [m])"
      by (rule processMessages_append)
    also have "\<dots> = fst (processMessages c [m])"
      unfolding processMessages_single_new [OF new] fst_conv
      by (simp add: processMessages_single_old [OF alreadyRecorded_after])
    finally show ?thesis by simp
  qed
  show "messages (fst (processMessages c [m, m])) = messages c @ [m]"
    unfolding twice by (simp add: processMessages_single_new [OF new] record_message_fields)
  show "totalInputTokens (fst (processMessages c [m, m])) = totalInputTokens (fst (processMessages c [m]))"
    by (simp only: twice)
  show "totalOutputTokens (fst (processMessages c [m, m])) = totalOutputTokens (fst (processMessages c [m]))"
    by (simp only: twice)
qed

theorem processMessages_incremental_witness:
  "\<not> alreadyRecorded (createNewConversation (str ''conv_1'') 0) hello
   \<and> messages (fst (processMessages (createNewConversation (str ''conv_1'') 0) [hello, hello])) = [hello]
   \<and> totalInputTokens (fst (processMessages (createNewConversation (str ''conv_1'') 0) [hello, hello])) = Num 4"
proof -
  have a: "\<not> alreadyRecorded (createNewConversation (str ''conv_1'') 0) hello"
    by (simp add: alreadyRecorded_def createNewConversation_def)
  have b: "messages (createNewConversation (str ''conv_1'') 0) = []"
    by (simp add: createNewConversation_def)
  have c: "totalInputTokens (fst (processMessages (createNewConversation (str ''conv_1'') 0) [hello])) = Num 4"
    by (simp add: conv_eval)
  have d: "messages (fst (processMessages (createNewConversation (str ''conv_1'') 0) [hello, hello]))
      = messages (createNewConversation (str ''conv_1'') 0) @ [hello]
    \<and> totalInputTokens (fst (processMessages (createNewConversation (str ''conv_1'') 0) [hello, hello]))
      = totalInputTokens (fst (processMessages (createNewConversation (str ''conv_1'') 0) [hello]))"
    using a processMessages_incremental [of "createNewConversation (str ''conv_1'') 0" "[]" "[]" "[]" hello]
    by blast
  show ?thesis
    using a d by (simp only: b c append_Nil) simp
qed

text \<open>
  A batch of two copies of a message not yet recorded: the code records and counts one,
  where judging both against the state at the start of the call records and counts both.
\<close>

theorem snapshot_dedup_counterexample:
  "messages (fst (processMessages (createNewConversation (str ''conv_1'') 0) [hello, hello])) = [hello]
   \<and> totalInputTokens (fst (processMessages (createNewConversation (str ''conv_1'') 0) [hello, hello])) = Num 4
   \<and> messages (fst (spec_ingest_snapshot (createNewConversation (str ''conv_1'') 0) [hello, hello])) = [hello, hello]
   \<and> totalInputTokens (fst (spec_ingest_snapshot (createNewConversation (str ''conv_1'') 0) [hello, hello])) = Num 8"
  by (simp add: conv_eval spec_ingest_snapshot_def record_message_def)

lemma roles_distinct: "str ''user'' \<noteq> str ''assistant''"
  by (simp add: str_def)

lemma tokensOfRole_record:
  "tokensOfRole r (record_message c m)
     = js_add (tokensOfRole r c) (if role m = r then encode (JStr (content m)) (model c) else Num 0)"
  by (simp add: tokensOfRole_def record_message_fields js_sum_append)

lemma tokensOfRole_cost: "tokensOfRole r (c\<lparr>totalCost := x\<rparr>) = tokensOfRole r c"
  by (simp add: tokensOfRole_def)

lemma forEach_tokens:
  "totalInputTokens c = tokensOfRole (str ''user'') c \<Longrightarrow>
   totalOutputTokens c = tokensOfRole (str ''assistant'') c \<Longrightarrow>
   totalInputTokens (fst (processMessages_forEach c h ms))
     = tokensOfRole (str ''user'') (fst (processMessages_forEach c h ms))
   \<and> totalOutputTokens (fst (processMessages_forEach c h ms))
     = tokensOfRole (str ''assistant'') (fst (processMessages_forEach c h ms))"
proof (induction ms arbitrary: c h)
  case Nil
  then show ?case by simp
next
  case (Cons m ms)
  show ?case
  proof (cases "alreadyRecorded c m")
    case True
    then show ?thesis using Cons by (simp add: forEach_Cons)
  next
    case False
    have "totalInputTokens (record_message c m) = tokensOfRole (str ''user'') (record_message c m)"
      using Cons.prems(1) by (simp add: tokensOfRole_record record_message_fields)
    moreover have "totalOutputTokens (record_message c m) = tokensOfRole (str ''assistant'') (record_message c m)"
      using Cons.prems(2) by (simp add: tokensOfRole_record record_message_fields)
    ultimately show ?thesis
      using False Cons.IH [of "record_message c m" True] by (simp add: forEach_Cons)
  qed
qed

lemma processMessages_tokens:
  "totalInputTokens c = tokensOfRole (str ''user'') c \<Longrightarrow>
   totalOutputTokens c = tokensOfRole (str ''assistant'') c \<Longrightarrow>
   totalInputTokens (fst (processMessages c ms)) = tokensOfRole (str ''user'') (fst (processMessages c ms))
   \<and> totalOutputTokens (fst (processMessages c ms))
       = tokensOfRole (str ''assistant'') (fst (processMessages c ms))"
proof -
  assume a: "totalInputTokens c = tokensOfRole (str ''user'') c"
    "totalOutputTokens c = tokensOfRole (str ''assistant'') c"
  show ?thesis
  proof (cases "snd (processMessages_forEach c False ms)")
    case True
    then show ?thesis
      using forEach_tokens [OF a, of False ms] by (simp add: processMessages_fst tokensOfRole_cost)
  next
    case False
    then show ?thesis using a by (simp add: processMessages_fst)
  qed
qed

lemma ingests_tokens:
  "totalInputTokens c = tokensOfRole (str ''user'') c \<Longrightarrow>
   totalOutputTokens c = tokensOfRole (str ''assistant'') c \<Longrightarrow>
   totalInputTokens (foldl apply_operation c (map Ingest batches))
     = tokensOfRole (str ''user'') (foldl apply_operation c (map Ingest batches))
   \<and> totalOutputTokens (foldl apply_operation c (map Ingest batches))
       = tokensOfRole (str ''assistant'') (foldl apply_operation c (map Ingest batches))"
proof (induction batches arbitrary: c)
  case Nil
  then show ?case by simp
next
  case (Cons b batches)
  have "totalInputTokens (fst (processMessages c b)) = tokensOfRole (str ''user'') (fst (processMessages c b))
    \<and> totalOutputTokens (fst (processMessages c b))
        = tokensOfRole (str ''assistant'') (fst (processMessages c b))"
    using Cons.prems by (rule processMessages_tokens)
  then show ?case
    using Cons.IH [of "fst (processMessages c b)"] by simp
qed

lemma freshConversation_tokens:
  "totalInputTokens (freshConversation i u modelId t) = tokensOfRole (str ''user'') (freshConversation i u modelId t)"
  "totalOutputTokens (freshConversation i u modelId t)
     = tokensOfRole (str ''assistant'') (freshConversation i u modelId t)"
  by (simp_all add: freshConversation_def tokensOfRole_def)

lemma processMessages_accounted: "accounted c \<Longrightarrow> accounted (fst (processMessages c ms))"
proof -
  assume a: "accounted c"
  show ?thesis
  proof (cases "snd (processMessages_forEach c False ms)")
    case True
    have "totalInputTokens (fst (processMessages_forEach c False ms))
        = tokensOfRole (str ''user'') (fst (processMessages_forEach c False ms))
      \<and> totalOutputTokens (fst (processMessages_forEach c False ms))
        = tokensOfRole (str ''assistant'') (fst (processMessages_forEach c False ms))"
      using a by (intro forEach_tokens) (simp_all add: accounted_def)
    then show ?thesis
      using True by (simp add: processMessages_fst accounted_def tokensOfRole_cost forEach_model)
  next
    case False
    then show ?thesis using a by (simp add: processMessages_fst)
  qed
qed

lemma freshConversation_accounted:
  "modelId \<notin> set inheritedMembers \<Longrightarrow> accounted (freshConversation i u modelId t)"
  by (simp add: accounted_def freshConversation_def tokensOfRole_def calculateCost_profile spec_cost_zero)

lemma ingests_accounted:
  "accounted c \<Longrightarrow> accounted (foldl apply_operation c (map Ingest batches))"
  by (induction batches arbitrary: c) (simp_all add: processMessages_accounted)

lemma cleanupConversation_fields:
  "totalInputTokens (cleanupConversation c) = totalInputTokens c"
  "totalOutputTokens (cleanupConversation c) = totalOutputTokens c"
  "totalCost (cleanupConversation c) = totalCost c"
  "model (cleanupConversation c) = model c"
  "messages (cleanupConversation c)
     = (if length (messages c) > 100 then drop (length (messages c) - 50) (messages c) else messages c)"
  by (simp_all add: cleanupConversation_def slice_last_def)

text \<open>On the conversation, \<open>performMemoryCleanup\<close> is \<open>cleanupConversation\<close>.\<close>

lemma performMemoryCleanup_conversation:
  "currentConversation (performMemoryCleanup t) = cleanupConversation (currentConversation t)"
  by (simp add: performMemoryCleanup_def Let_def)

text \<open>
  Claim C3, amended. In every state reached from a fresh conversation by ingests, the
  cumulative input count is the sum of the estimates of the recorded user messages and the
  cumulative output count the same sum over the assistant messages; when the active model
  is no inherited member name, the cumulative cost is \<open>calculateCost\<close> of the two counts
  and the active model. The memory cleanup leaves the two counts and the cost as they are
  and cuts a recorded sequence of more than 100 messages down to its last 50.
\<close>

theorem ingest_accounting_invariant:
  "totalInputTokens (foldl apply_operation (freshConversation newId newUrlId modelId now) (map Ingest batches))
     = tokensOfRole (str ''user'')
         (foldl apply_operation (freshConversation newId newUrlId modelId now) (map Ingest batches))
   \<and> totalOutputTokens (foldl apply_operation (freshConversation newId newUrlId modelId now) (map Ingest batches))
       = tokensOfRole (str ''assistant'')
           (foldl apply_operation (freshConversation newId newUrlId modelId now) (map Ingest batches))
   \<and> (modelId \<notin> set inheritedMembers \<longrightarrow>
        accounted (foldl apply_operation (freshConversation newId newUrlId modelId now) (map Ingest batches)))
   \<and> totalInputTokens (cleanupConversation c) = totalInputTokens c
   \<and> totalOutputTokens (cleanupConversation c) = totalOutputTokens c
   \<and> totalCost (cleanupConversation c) = totalCost c
   \<and> messages (cleanupConversation c)
       = (if length (messages c) > 100 then drop (length (messages c) - 50) (messages c) else messages c)"
proof -
  have "totalInputTokens (foldl apply_operation (freshConversation newId newUrlId modelId now) (map Ingest batches))
     = tokensOfRole (str ''user'')
         (foldl apply_operation (freshConversation newId newUrlId modelId now) (map Ingest batches))
   \<and> totalOutputTokens (foldl apply_operation (freshConversation newId newUrlId modelId now) (map Ingest batches))
       = tokensOfRole (str ''assistant'')
           (foldl apply_operation (freshConversation newId newUrlId modelId now) (map Ingest batches))"
    by (rule ingests_tokens [OF freshConversation_tokens])
  moreover have "modelId \<notin> set inheritedMembers \<longrightarrow>
      accounted (foldl apply_operation (freshConversation newId newUrlId modelId now) (map Ingest batches))"
    by (simp add: ingests_accounted freshConversation_accounted)
  moreover have "totalInputTokens (cleanupConversation c) = totalInputTokens c
   \<and> totalOutputTokens (cleanupConversation c) = totalOutputTokens c
   \<and> totalCost (cleanupConversation c) = totalCost c
   \<and> messages (cleanupConversation c)
       = (if length (messages c) > 100 then drop (length (messages c) - 50) (messages c) else messages c)"
    by (simp add: cleanupConversation_fields)
  ultimately show ?thesis
    by blast
qed

lemma alreadyRecorded_record:
  "alreadyRecorded (record_message c m) m' \<longleftrightarrow>
     alreadyRecorded c m' \<or> (content m = content m' \<and> role m = role m')"
  by (auto simp: alreadyRecorded_def list_ex_iff record_message_fields)

lemma forEach_all_new:
  "distinct (map (\<lambda>m. (role m, content m)) ms) \<Longrightarrow>
   (\<forall>m \<in> set ms. \<not> alreadyRecorded c m) \<Longrightarrow>
   messages (fst (processMessages_forEach c h ms)) = messages c @ ms"
proof (induction ms arbitrary: c h)
  case Nil
  show ?case by simp
next
  case (Cons m ms)
  have new: "\<not> alreadyRecorded c m" using Cons.prems(2) by simp
  have d: "distinct (map (\<lambda>m. (role m, content m)) ms)" using Cons.prems(1) by simp
  have "\<forall>m' \<in> set ms. \<not> alreadyRecorded (record_message c m) m'"
  proof
    fix m' assume m': "m' \<in> set ms"
    have "(role m, content m) \<noteq> (role m', content m')"
      using Cons.prems(1) m' by auto
    then show "\<not> alreadyRecorded (record_message c m) m'"
      using Cons.prems(2) m' by (auto simp: alreadyRecorded_record)
  qed
  then have "messages (fst (processMessages_forEach (record_message c m) True ms))
      = messages (record_message c m) @ ms"
    using Cons.IH [OF d] by blast
  then show ?case using new by (simp add: forEach_Cons record_message_fields)
qed

lemma filler_key_inj: "inj (\<lambda>i. (role (filler i), content (filler i)))"
proof (rule injI)
  fix i j
  assume "(role (filler i), content (filler i)) = (role (filler j), content (filler j))"
  then have "replicate (Suc i) (120::nat) = replicate (Suc j) 120"
    by (simp add: filler_def)
  then have "length (replicate (Suc i) (120::nat)) = length (replicate (Suc j) (120::nat))"
    by (rule arg_cong)
  then show "i = j" by simp
qed

lemma fillers_distinct: "distinct xs \<Longrightarrow> distinct (map (\<lambda>m. (role m, content m)) (map filler xs))"
proof -
  assume "distinct xs"
  moreover have "inj_on (\<lambda>i. (role (filler i), content (filler i))) (set xs)"
    using filler_key_inj by (rule inj_on_subset) simp
  ultimately have "distinct (map (\<lambda>i. (role (filler i), content (filler i))) xs)"
    by (simp add: distinct_map)
  then show ?thesis by (simp only: map_map comp_def)
qed

lemma batch101_distinct: "distinct (map (\<lambda>m. (role m, content m)) batch101)"
  unfolding batch101_def by (rule fillers_distinct) (rule distinct_upt)

lemma batch101_length: "length batch101 = 101"
  unfolding batch101_def by (simp only: length_map length_upt diff_zero)

lemma fillers_role: "m \<in> set (map filler xs) \<Longrightarrow> role m = str ''user''"
  by (auto simp: filler_def)

lemma batch101_roles: "set xs \<subseteq> set batch101 \<Longrightarrow> filter (\<lambda>m. role m = str ''user'') xs = xs"
proof -
  assume "set xs \<subseteq> set batch101"
  then have "\<forall>m \<in> set xs. role m = str ''user''"
    unfolding batch101_def using fillers_role by blast
  then show ?thesis by simp
qed

lemma batch101_head: "\<exists>rest. batch101 = filler 0 # rest"
proof -
  have "[0..<101] = 0 # [Suc 0..<101]"
    by (rule upt_conv_Cons) simp
  then have "batch101 = filler 0 # map filler [Suc 0..<101]"
    unfolding batch101_def by (simp only: list.map)
  then show ?thesis by blast
qed

lemma filler_tokens: "spec_estimate (content (filler 0)) (str ''gpt-4o'') = 3"
  by (simp add: filler_def spec_estimate_eval)

lemma gpt4o_tokens:
  "js_sum (map (\<lambda>m. encode (JStr (content m)) (str ''gpt-4o'')) xs)
     = Num (sum_list (map (\<lambda>m. spec_estimate (content m) (str ''gpt-4o'')) xs))"
proof -
  have "map (\<lambda>m. encode (JStr (content m)) (str ''gpt-4o'')) xs
      = map Num (map (\<lambda>m. spec_estimate (content m) (str ''gpt-4o'')) xs)"
    by (simp only: encode_spec_estimate [OF known_models(1)] map_map comp_def)
  then show ?thesis
    by (simp only: js_sum_Num)
qed

lemma createNewConversation_fresh:
  "createNewConversation newId now = freshConversation newId None (str ''gpt-4o'') now"
  by (simp add: createNewConversation_def freshConversation_def)

lemma crowded_messages: "messages crowded = batch101"
proof -
  let ?c0 = "createNewConversation (str ''conv_1'') 0"
  have m0: "messages ?c0 = []"
    by (simp add: createNewConversation_def)
  have "\<forall>m \<in> set batch101. \<not> alreadyRecorded ?c0 m"
    unfolding alreadyRecorded_def m0 by simp
  then have "messages (fst (processMessages_forEach ?c0 False batch101)) = messages ?c0 @ batch101"
    by (rule forEach_all_new [OF batch101_distinct])
  then show ?thesis
    unfolding crowded_def processMessages_messages m0 by (simp only: append_Nil)
qed

lemma crowded_model: "model crowded = str ''gpt-4o''"
proof -
  have "model crowded = model (createNewConversation (str ''conv_1'') 0)"
    unfolding crowded_def by (simp add: processMessages_fst forEach_model)
  then show ?thesis by (simp add: createNewConversation_def)
qed

lemma crowded_accounted: "accounted crowded"
  unfolding crowded_def createNewConversation_fresh
  by (intro processMessages_accounted freshConversation_accounted known_models)

lemma crowded_total:
  "totalInputTokens crowded = Num (sum_list (map (\<lambda>m. spec_estimate (content m) (str ''gpt-4o'')) batch101))"
proof -
  have "totalInputTokens crowded = tokensOfRole (str ''user'') crowded"
    using crowded_accounted by (simp add: accounted_def)
  also have "\<dots> = js_sum (map (\<lambda>m. encode (JStr (content m)) (str ''gpt-4o'')) batch101)"
    unfolding tokensOfRole_def crowded_messages crowded_model by (simp add: batch101_roles)
  finally show ?thesis by (simp only: gpt4o_tokens)
qed

lemma cleanup_crowded_messages: "messages (cleanupConversation crowded) = drop 51 batch101"
  by (simp add: cleanupConversation_fields crowded_messages batch101_length)

lemma cleanup_crowded_tokens:
  "tokensOfRole (str ''user'') (cleanupConversation crowded)
     = Num (sum_list (map (\<lambda>m. spec_estimate (content m) (str ''gpt-4o'')) (drop 51 batch101)))"
proof -
  have "set (drop 51 batch101) \<subseteq> set batch101"
    by (rule set_drop_subset)
  then have "filter (\<lambda>m. role m = str ''user'') (drop 51 batch101) = drop 51 batch101"
    by (rule batch101_roles)
  then show ?thesis
    unfolding tokensOfRole_def cleanup_crowded_messages cleanupConversation_fields(4) crowded_model
    by (simp only: gpt4o_tokens)
qed

lemma batch101_dropped_tokens:
  "0 < sum_list (map (\<lambda>m. spec_estimate (content m) (str ''gpt-4o'')) (take 51 batch101))"
proof -
  obtain rest where r: "batch101 = filler 0 # rest"
    using batch101_head by blast
  have "take 51 (filler 0 # rest) = filler 0 # take 50 rest"
    by simp
  then have "take 51 batch101 = filler 0 # take 50 rest"
    by (simp only: r)
  then show ?thesis
    by (simp only: list.map sum_list.Cons filler_tokens)
qed

text \<open>
  After an ingest of 101 new user messages and a memory cleanup the recorded sequence
  holds the last 50 of them, and the cumulative input count, still that of all 101, is
  larger than the sum over the recorded sequence.
\<close>

theorem cleanup_breaks_accounting_counterexample:
  "tokensOfRole (str ''user'')
      (foldl apply_operation (createNewConversation (str ''conv_1'') 0) [Ingest batch101, MemoryCleanup])
   \<noteq> totalInputTokens
      (foldl apply_operation (createNewConversation (str ''conv_1'') 0) [Ingest batch101, MemoryCleanup])
   \<and> js_le (tokensOfRole (str ''user'')
      (foldl apply_operation (createNewConversation (str ''conv_1'') 0) [Ingest batch101, MemoryCleanup]))
     (totalInputTokens
      (foldl apply_operation (createNewConversation (str ''conv_1'') 0) [Ingest batch101, MemoryCleanup]))"
proof -
  let ?f = "\<lambda>m. spec_estimate (content m) (str ''gpt-4o'')"
  have run: "foldl apply_operation (createNewConversation (str ''conv_1'') 0) [Ingest batch101, MemoryCleanup]
      = cleanupConversation crowded"
    by (simp only: foldl.simps apply_operation.simps crowded_def)
  have "sum_list (map ?f (take 51 batch101 @ drop 51 batch101))
      = sum_list (map ?f (take 51 batch101)) + sum_list (map ?f (drop 51 batch101))"
    by (simp only: map_append sum_list_append)
  then have "sum_list (map ?f batch101)
      = sum_list (map ?f (take 51 batch101)) + sum_list (map ?f (drop 51 batch101))"
    by (simp only: append_take_drop_id)
  then have less: "sum_list (map ?f (drop 51 batch101)) < sum_list (map ?f batch101)"
    using batch101_dropped_tokens by linarith
  have "Num (sum_list (map ?f (drop 51 batch101))) \<noteq> Num (sum_list (map ?f batch101))"
    using less by simp
  moreover have "js_le (Num (sum_list (map ?f (drop 51 batch101)))) (Num (sum_list (map ?f batch101)))"
    using less by simp
  ultimately show ?thesis
    unfolding run cleanup_crowded_tokens cleanupConversation_fields(1) crowded_total by (rule conjI)
qed

theorem ingest_accounting_invariant_witness:
  "str ''gpt-4o'' \<notin> set inheritedMembers
   \<and> accounted (foldl apply_operation (freshConversation (str ''conv_1'') None (str ''gpt-4o'') 0)
      (map Ingest [[hello], [hello, reply]]))
   \<and> totalInputTokens (foldl apply_operation (freshConversation (str ''conv_1'') None (str ''gpt-4o'') 0)
      (map Ingest [[hello], [hello, reply]])) = Num 4
   \<and> totalOutputTokens (foldl apply_operation (freshConversation (str ''conv_1'') None (str ''gpt-4o'') 0)
      (map Ingest [[hello], [hello, reply]])) = Num 9"
proof -
  have "totalInputTokens (foldl apply_operation (freshConversation (str ''conv_1'') None (str ''gpt-4o'') 0)
      (map Ingest [[hello], [hello, reply]])) = Num 4
   \<and> totalOutputTokens (foldl apply_operation (freshConversation (str ''conv_1'') None (str ''gpt-4o'') 0)
      (map Ingest [[hello], [hello, reply]])) = Num 9"
    by (simp add: conv_eval freshConversation_def)
  then show ?thesis
    using known_models(1)
      ingest_accounting_invariant [of "str ''conv_1''" None "str ''gpt-4o''" 0 "[[hello], [hello, reply]]"]
    by blast
qed

section \<open>Conversation boundaries\<close>

lemma detectNewConversation_boundary:
  "detectNewConversation url newId now indicators t =
     (if shouldStartNew (currentConversation t) (conversationMatch url)
      then startNewConversation (conversationMatch url) newId now indicators t
      else t)"
  by (simp add: detectNewConversation_def shouldStartNew_def split: option.split)

lemma shouldStartNew_iff:
  "shouldStartNew c observed \<longleftrightarrow>
     (\<exists>u. observed = Some u \<and> urlId c \<noteq> Some u)
     \<or> (observed = None \<and> (\<exists>s. urlId c = Some s \<and> s \<noteq> []))"
  by (auto simp: shouldStartNew_def split: option.split)

lemma startNewConversation_fresh:
  "currentConversation (startNewConversation newUrlId newId now indicators t)
     = freshConversation newId newUrlId (detectCurrentModel indicators (settingsDefaultModel t)) now"
  by (simp add: startNewConversation_def freshConversation_def saveConversationToHistory_call_def Let_def)

lemma startNewConversation_pending:
  "pendingHistorySaves (startNewConversation newUrlId newId now indicators t)
     = (if messages (currentConversation t) \<noteq> []
        then pendingHistorySaves t @ [conversationsHistory t] else pendingHistorySaves t)"
  by (simp add: startNewConversation_def saveConversationToHistory_call_def Let_def)

lemma conversationMatch_xyz: "conversationMatch (str ''https://chatgpt.com/c/xyz'') = Some (str ''xyz'')"
  by (simp add: str_def isIdChar_def)

text \<open>
  Claim C10. The boundary test holds for the stored id \<open>abc\<close> and the observed id
  \<open>xyz\<close>, and the conversation that is current then has one recorded message. After
  \<open>detectNewConversation\<close> and the rest of \<open>saveConversationToHistory\<close> the history
  holds one entry with an end time: it is the fresh conversation \<open>conv_2\<close>, with no
  messages, and not the conversation that was closed. The model of the fresh conversation
  is the detected one for the indicator text \<open>GPT-4 Turbo\<close>; for the indicator text
  \<open>GPT-4o\<close>, in which \<open>detectModel\<close> finds \<open>gpt-4o\<close>, it is the default model \<open>gpt-4\<close>
  of the settings, a detected \<open>gpt-4o\<close> being taken for no detection.
\<close>

theorem history_gets_fresh_conversation:
  "conversationMatch (str ''https://chatgpt.com/c/xyz'') = Some (str ''xyz'')
   \<and> shouldStartNew (currentConversation tracker_abc) (Some (str ''xyz''))
   \<and> messages (currentConversation tracker_abc) = [hello]
   \<and> map convId (conversationsHistory (saveConversationToHistory_resume 200
         (detectNewConversation (str ''https://chatgpt.com/c/xyz'') (str ''conv_2'') 100 [] tracker_abc)))
       = [str ''conv_2'']
   \<and> map messages (conversationsHistory (saveConversationToHistory_resume 200
         (detectNewConversation (str ''https://chatgpt.com/c/xyz'') (str ''conv_2'') 100 [] tracker_abc)))
       = [[]]
   \<and> map endTime (conversationsHistory (saveConversationToHistory_resume 200
         (detectNewConversation (str ''https://chatgpt.com/c/xyz'') (str ''conv_2'') 100 [] tracker_abc)))
       = [200]
   \<and> model (currentConversation
         (detectNewConversation (str ''https://chatgpt.com/c/xyz'') (str ''conv_2'') 100 [str ''GPT-4 Turbo'']
            tracker_abc)) = str ''gpt-4-turbo''
   \<and> detectModel (JStr (str ''GPT-4o'')) = Inr (str ''gpt-4o'')
   \<and> settingsDefaultModel tracker_abc = str ''gpt-4''
   \<and> model (currentConversation
         (detectNewConversation (str ''https://chatgpt.com/c/xyz'') (str ''conv_2'') 100 [str ''GPT-4o'']
            tracker_abc)) = str ''gpt-4''"
proof -
  have b: "shouldStartNew (currentConversation tracker_abc) (Some (str ''xyz''))"
    by (simp add: shouldStartNew_def tracker_abc_def str_def)
  have m: "messages (currentConversation tracker_abc) = [hello]"
    by (simp add: tracker_abc_def)
  define t1 where "t1 = detectNewConversation (str ''https://chatgpt.com/c/xyz'') (str ''conv_2'') 100 [] tracker_abc"
  have start: "t1 = startNewConversation (Some (str ''xyz'')) (str ''conv_2'') 100 [] tracker_abc"
    unfolding t1_def detectNewConversation_boundary conversationMatch_xyz using b by simp
  have cur: "currentConversation t1 = freshConversation (str ''conv_2'') (Some (str ''xyz'')) (str ''gpt-4'') 100"
    unfolding start startNewConversation_fresh by (simp add: tracker_abc_def)
  have pend: "pendingHistorySaves t1 = [[]]"
    unfolding start startNewConversation_pending by (simp add: tracker_abc_def)
  have hist: "conversationsHistory t1 = []"
    unfolding start by (simp add: startNewConversation_def saveConversationToHistory_call_def tracker_abc_def Let_def)
  have "conversationsHistory (saveConversationToHistory_resume 200 t1)
      = [conversation.extend (freshConversation (str ''conv_2'') (Some (str ''xyz'')) (str ''gpt-4'') 100) \<lparr>endTime = 200\<rparr>]"
    by (simp add: saveConversationToHistory_resume_def pend hist cur Let_def)
  then have "map convId (conversationsHistory (saveConversationToHistory_resume 200 t1)) = [str ''conv_2'']
     \<and> map messages (conversationsHistory (saveConversationToHistory_resume 200 t1)) = [[]]
     \<and> map endTime (conversationsHistory (saveConversationToHistory_resume 200 t1)) = [200]"
    by (simp add: freshConversation_def conversation.defs archived.defs)
  then have saved: "map convId (conversationsHistory (saveConversationToHistory_resume 200
         (detectNewConversation (str ''https://chatgpt.com/c/xyz'') (str ''conv_2'') 100 [] tracker_abc)))
       = [str ''conv_2'']
   \<and> map messages (conversationsHistory (saveConversationToHistory_resume 200
         (detectNewConversation (str ''https://chatgpt.com/c/xyz'') (str ''conv_2'') 100 [] tracker_abc)))
       = [[]]
   \<and> map endTime (conversationsHistory (saveConversationToHistory_resume 200
         (detectNewConversation (str ''https://chatgpt.com/c/xyz'') (str ''conv_2'') 100 [] tracker_abc)))
       = [200]"
    unfolding t1_def .
  have d: "settingsDefaultModel tracker_abc = str ''gpt-4''"
    by (simp add: tracker_abc_def)
  have fresh: "model (currentConversation
         (detectNewConversation (str ''https://chatgpt.com/c/xyz'') (str ''conv_2'') 100 indicators tracker_abc))
       = detectCurrentModel indicators (str ''gpt-4'')" for indicators
    unfolding detectNewConversation_boundary conversationMatch_xyz startNewConversation_fresh d
    using b by (simp add: startNewConversation_fresh d freshConversation_def)
  have turbo: "detectCurrentModel [str ''GPT-4 Turbo''] (str ''gpt-4'') = str ''gpt-4-turbo''"
    by (simp add: detect_eval)
  have det: "detectModel (JStr (str ''GPT-4o'')) = Inr (str ''gpt-4o'')"
    by (simp add: detect_eval)
  have dflt: "detectCurrentModel [str ''GPT-4o''] (str ''gpt-4'') = str ''gpt-4''"
    by (simp add: detect_eval)
  show ?thesis
    using b m conversationMatch_xyz saved d det by (simp only: fresh turbo dflt)
qed

end
